theory Spec2Isabelle
  imports Complex_Main
begin

section \<open>The documentation page template \<^verbatim>\<open>src/templates/doc.tsx\<close>\<close>

text \<open>
  The template renders one documentation page and, in a React effect, wires a table of
  contents (TOC) to the page: a click handler on every TOC anchor and a throttled scroll
  handler that highlights the current section.

  Conventions of the embedding.
  \<^item> A JavaScript string is a \<open>string\<close> holding its UTF-8 bytes. The \<open>href\<close> property of
    an anchor is a serialised URL and therefore ASCII; element ids are arbitrary text.
  \<^item> A JavaScript number is an IEEE 754 double. A pixel measure
    (\<open>getBoundingClientRect().top\<close>, \<open>window.innerHeight\<close>, the scroll offset) is the
    \<open>real\<close> it denotes. Where a handler adds or subtracts numbers, JavaScript rounds the
    result to a double; that rounding is a parameter \<open>fl\<close> of the handler, applied after
    each operation. The one comparison, with \<open>window.innerHeight / 4\<close>, needs none: the
    height is a whole number of pixels and a quarter of it is a double.
  \<^item> A handler returns a \<open>completion\<close>: it returns normally or throws. The mutations
    made before a throw stay in the returned state, as they do in the browser.
  \<^item> Calls into the browser that the handlers only issue (\<open>history.replaceState\<close>, the
    smooth \<open>scrollTo\<close>) are recorded in the order they are made.
\<close>

subsection \<open>Strings: \<open>indexOf\<close>, \<open>slice\<close>, \<open>decodeURIComponent\<close>\<close>

datatype js_error = URIError | TypeError

datatype completion = Normal | Throw js_error

text \<open>\<open>s.indexOf(c)\<close> for a one-character search string: the first index, or \<open>-1\<close>.\<close>

definition indexOf :: "string \<Rightarrow> char \<Rightarrow> int" where
  "indexOf s c =
     (if c \<in> set s then int (length (takeWhile (\<lambda>d. d \<noteq> c) s)) else - 1)"

text \<open>\<open>s.slice(start)\<close>: a negative start counts from the end, and the start is clamped
  to the string.\<close>

definition slice :: "string \<Rightarrow> int \<Rightarrow> string" where
  "slice s start =
     (let len = int (length s);
          from = (if start < 0 then max (len + start) 0 else min start len)
      in drop (nat from) s)"

text \<open>
  \<open>decodeURIComponent\<close> is the \<open>Decode\<close> operation of ECMAScript with an empty set of
  preserved escapes. A character other than \<open>%\<close> is copied. A \<open>%\<close> must be followed by
  two hexadecimal digits, giving an octet \<open>B\<close>; with \<open>n\<close> the number of leading one bits
  of \<open>B\<close>: for \<open>n = 0\<close> the octet is the character, \<open>n = 1\<close> and \<open>n > 4\<close> are errors,
  and otherwise \<open>n - 1\<close> further escapes must follow at once and the \<open>n\<close> octets must be
  the UTF-8 encoding of a code point. Every failure is a \<open>URIError\<close>.
\<close>

definition hex_digit :: "char \<Rightarrow> nat option" where
  "hex_digit c =
     (let n = (of_char c :: nat) in
      if 48 \<le> n \<and> n \<le> 57 then Some (n - 48)
      else if 65 \<le> n \<and> n \<le> 70 then Some (n - 55)
      else if 97 \<le> n \<and> n \<le> 102 then Some (n - 87)
      else None)"

fun ParseHexOctet :: "string \<Rightarrow> nat option" where
  "ParseHexOctet [h, l] =
     (case hex_digit h of
        None \<Rightarrow> None
      | Some a \<Rightarrow> (case hex_digit l of None \<Rightarrow> None | Some b \<Rightarrow> Some (16 * a + b)))"
| "ParseHexOctet _ = None"

definition leading_ones :: "nat \<Rightarrow> nat" where
  "leading_ones B =
     (if B < 128 then 0 else if B < 192 then 1 else if B < 224 then 2
      else if B < 240 then 3 else if B < 248 then 4 else 5)"

definition continuation :: "nat \<Rightarrow> bool" where
  "continuation b = (128 \<le> b \<and> b \<le> 191)"

text \<open>The well-formed UTF-8 byte sequences of two to four octets (no overlong forms, no
  surrogates, nothing above U+10FFFF).\<close>

fun valid_utf8 :: "nat list \<Rightarrow> bool" where
  "valid_utf8 [a, b] = (194 \<le> a \<and> a \<le> 223 \<and> continuation b)"
| "valid_utf8 [a, b, c] =
     ((a = 224 \<and> 160 \<le> b \<and> b \<le> 191
       \<or> 225 \<le> a \<and> a \<le> 236 \<and> continuation b
       \<or> a = 237 \<and> 128 \<le> b \<and> b \<le> 159
       \<or> 238 \<le> a \<and> a \<le> 239 \<and> continuation b)
      \<and> continuation c)"
| "valid_utf8 [a, b, c, d] =
     ((a = 240 \<and> 144 \<le> b \<and> b \<le> 191
       \<or> 241 \<le> a \<and> a \<le> 243 \<and> continuation b
       \<or> a = 244 \<and> 128 \<le> b \<and> b \<le> 143)
      \<and> continuation c \<and> continuation d)"
| "valid_utf8 _ = False"

text \<open>The octets of a run of escapes \<open>%XX%XX...\<close> that fills the whole string.\<close>

fun escaped_octets :: "string \<Rightarrow> nat list option" where
  "escaped_octets [] = Some []"
| "escaped_octets (p # h # l # s) =
     (if p \<noteq> CHR ''%'' then None
      else case ParseHexOctet [h, l] of
             None \<Rightarrow> None
           | Some b \<Rightarrow> (case escaped_octets s of None \<Rightarrow> None | Some bs \<Rightarrow> Some (b # bs)))"
| "escaped_octets _ = None"

definition octets_string :: "nat list \<Rightarrow> string" where
  "octets_string bs = map char_of bs"

fun prepend :: "string \<Rightarrow> js_error + string \<Rightarrow> js_error + string" where
  "prepend s (Inl e) = Inl e"
| "prepend s (Inr r) = Inr (s @ r)"

fun decodeURIComponent :: "string \<Rightarrow> js_error + string" where
  "decodeURIComponent [] = Inr []"
| "decodeURIComponent (c # s) =
     (if c \<noteq> CHR ''%'' then prepend [c] (decodeURIComponent s)
      else if length s < 2 then Inl URIError
      else case ParseHexOctet (take 2 s) of
        None \<Rightarrow> Inl URIError
      | Some B \<Rightarrow>
         (if leading_ones B = 0 then prepend (octets_string [B]) (decodeURIComponent (drop 2 s))
          else if leading_ones B = 1 \<or> leading_ones B > 4 then Inl URIError
          else if length (drop 2 s) < 3 * (leading_ones B - 1) then Inl URIError
          else case escaped_octets (take (3 * (leading_ones B - 1)) (drop 2 s)) of
            None \<Rightarrow> Inl URIError
          | Some bs \<Rightarrow>
             (if valid_utf8 (B # bs)
              then prepend (octets_string (B # bs))
                     (decodeURIComponent (drop (3 * (leading_ones B - 1)) (drop 2 s)))
              else Inl URIError)))"

subsection \<open>The page: anchors, document, window\<close>

text \<open>
  An anchor of the TOC, as \<open>querySelectorAll('a[href]')\<close> returns it: its \<open>href\<close>, its
  class list, and whether the click handler of the effect is registered on it.
\<close>

record anchor =
  href :: string
  classList :: "string list"
  click_listener :: bool

text \<open>An element of the document: its \<open>id\<close> attribute (empty when it has none) and the
  \<open>top\<close> of its bounding client rectangle, relative to the viewport.\<close>

record element =
  el_id :: string
  rect_top :: real

text \<open>The \<open>location\<close> property of the template: \<open>pathname\<close> and \<open>search\<close>.\<close>

record location =
  pathname :: string
  search :: string

datatype history_call = ReplaceState string | PushState string

text \<open>The argument of \<open>scrollTo({ x, y, behavior })\<close>.\<close>

record scroll_options =
  opt_x :: real
  opt_y :: real
  behavior :: string

text \<open>
  The state the effect works on. \<open>tocEl\<close> is \<open>tocEl.current\<close>: \<open>None\<close> for \<open>null\<close>,
  otherwise the anchors under the TOC root in document order. \<open>scroll_listener\<close> says
  whether the throttled handler is registered on the window, and \<open>throttle_pending\<close>
  whether the throttle holds a timer with a trailing invocation to make.
\<close>

record page =
  tocEl :: "anchor list option"
  document :: "element list"
  innerHeight :: real
  scrollY :: real
  history_calls :: "history_call list"
  scrollTo_calls :: "scroll_options list"
  scroll_listener :: bool
  throttle_pending :: bool

text \<open>
  The element a click lands on, \<open>e.target\<close>: the anchor itself, or an element inside the
  anchor (the \<open>code\<close> element of a heading link, say), from which the event bubbles to
  the handler on the anchor. The handler casts the target to an anchor and reads its
  \<open>href\<close>, which an element inside the anchor does not have: there it is \<open>undefined\<close>.
\<close>

datatype node = AnchorNode anchor | Descendant

fun node_href :: "node \<Rightarrow> string option" where
  "node_href (AnchorNode a) = Some (href a)"
| "node_href Descendant = None"

text \<open>A click event: its target and whether \<open>preventDefault\<close> was called on it.\<close>

record event =
  target :: node
  defaultPrevented :: bool

text \<open>\<open>document.getElementById\<close>: the first element with the id; an empty id names no
  element.\<close>

definition getElementById :: "element list \<Rightarrow> string \<Rightarrow> element option" where
  "getElementById doc i = (if i = [] then None else find (\<lambda>el. el_id el = i) doc)"

definition classList_remove :: "string list \<Rightarrow> string \<Rightarrow> string list" where
  "classList_remove cl t = removeAll t cl"

definition classList_add :: "string list \<Rightarrow> string \<Rightarrow> string list" where
  "classList_add cl t = (if t \<in> set cl then cl else cl @ [t])"

subsection \<open>The click handler\<close>

text \<open>
  Lines 209 to 222. \<open>anchor.href.indexOf\<close> throws a \<open>TypeError\<close> when the \<open>href\<close> of the
  target is \<open>undefined\<close>. Otherwise the text after the first \<open>#\<close> of the \<open>href\<close> (the
  whole \<open>href\<close> when it has none, since then \<open>indexOf\<close> is \<open>-1\<close>) is decoded and looked
  up. \<open>scrollY() + top - 102\<close> is two operations on doubles, each rounded by \<open>fl\<close>.
\<close>

definition onClick ::
  "(real \<Rightarrow> real) \<Rightarrow> location \<Rightarrow> event \<Rightarrow> page \<Rightarrow> completion \<times> event \<times> page" where
  "onClick fl loc e p =
     (let e1 = e\<lparr>defaultPrevented := True\<rparr>;
          anchor = target e
      in case node_href anchor of
           None \<Rightarrow> (Throw TypeError, e1, p)
         | Some anchor_href \<Rightarrow>
            (let hashIndex = indexOf anchor_href CHR ''#'';
                 hash = slice anchor_href (hashIndex + 1)
             in case decodeURIComponent hash of
                  Inl err \<Rightarrow> (Throw err, e1, p)
                | Inr i \<Rightarrow>
                   (case getElementById (document p) i of
                      None \<Rightarrow> (Normal, e1, p)
                    | Some el \<Rightarrow>
                       (let y = fl (fl (scrollY p + rect_top el) - 102);
                            p1 = p\<lparr>history_calls := history_calls p @
                                   [ReplaceState (pathname loc @ search loc @ ''#'' @ hash)]\<rparr>;
                            p2 = p1\<lparr>scrollTo_calls := scrollTo_calls p1 @
                                   [\<lparr>opt_x = 0, opt_y = y, behavior = ''smooth''\<rparr>]\<rparr>
                        in (Normal, e1, p2)))))"

subsection \<open>The scroll handler\<close>

text \<open>
  Lines 231 to 241, the body of \<open>_.forEach(anchors, ...)\<close> run over the anchors from index
  \<open>i\<close> on. \<open>active\<close> is \<open>activeAnchor\<close>, the index of an anchor or \<open>None\<close> for \<open>null\<close>.
  The result holds the anchors as the loop leaves them. An unresolved target ends the
  iteration of that anchor before its class list is touched.
\<close>

fun forEach_anchors ::
  "element list \<Rightarrow> real \<Rightarrow> anchor list \<Rightarrow> nat \<Rightarrow> nat option
     \<Rightarrow> completion \<times> anchor list \<times> nat option" where
  "forEach_anchors doc h [] i active = (Normal, [], active)"
| "forEach_anchors doc h (a # as) i active =
     (let hashIndex = indexOf (href a) CHR ''#'' in
      case decodeURIComponent (slice (href a) (hashIndex + 1)) of
        Inl err \<Rightarrow> (Throw err, a # as, active)
      | Inr ident \<Rightarrow>
         (case getElementById doc ident of
            None \<Rightarrow>
              (case forEach_anchors doc h as (Suc i) active of
                 (c, as', act) \<Rightarrow> (c, a # as', act))
          | Some el \<Rightarrow>
              (let a' = a\<lparr>classList := classList_remove (classList a) ''active''\<rparr>;
                   active' = (if rect_top el < h / 4 then Some i else active)
               in case forEach_anchors doc h as (Suc i) active' of
                    (c, as', act) \<Rightarrow> (c, a' # as', act))))"

text \<open>Lines 228 to 242, the function handed to \<open>_.throttle\<close>.\<close>

definition onScroll_body :: "page \<Rightarrow> completion \<times> page" where
  "onScroll_body p =
     (case tocEl p of
        None \<Rightarrow> (Normal, p)
      | Some anchors \<Rightarrow>
         (case forEach_anchors (document p) (innerHeight p) anchors 0 None of
            (Throw err, as', act) \<Rightarrow> (Throw err, p\<lparr>tocEl := Some as'\<rparr>)
          | (Normal, as', None) \<Rightarrow> (Normal, p\<lparr>tocEl := Some as'\<rparr>)
          | (Normal, as', Some k) \<Rightarrow>
              (Normal, p\<lparr>tocEl := Some (as'[k := (as' ! k)
                 \<lparr>classList := classList_add (classList (as' ! k)) ''active''\<rparr>])\<rparr>)))"

subsection \<open>The throttle, the effect and its clean-up\<close>

text \<open>
  Modelled from the spec: \<open>_.throttle\<close> of lodash, which the file imports and whose
  source is not part of the repository. The spec describes it as "rate-limited to at
  most once per 100ms (throttled, trailing-and-leading invocation)", where "later calls
  within the window are coalesced, not queued" and an "in-flight throttle timer" makes
  the trailing invocation. Time itself is not modelled: a call of the throttled function
  is told whether the window since the last invocation is over. Such a call runs the
  body at once (leading), otherwise it leaves a timer pending; the calls made while the
  timer is pending are coalesced into it.
\<close>

definition onScroll :: "bool \<Rightarrow> page \<Rightarrow> completion \<times> page" where
  "onScroll window_over p =
     (if window_over \<and> \<not> throttle_pending p then onScroll_body p
      else (Normal, p\<lparr>throttle_pending := True\<rparr>))"

text \<open>Modelled from the spec: the pending timer of the throttle expires and makes the
  trailing invocation.\<close>

definition timer_fire :: "page \<Rightarrow> completion \<times> page" where
  "timer_fire p =
     (if throttle_pending p then onScroll_body (p\<lparr>throttle_pending := False\<rparr>)
      else (Normal, p))"

text \<open>
  Lines 206 to 245, the effect up to its \<open>return\<close>: nothing when the TOC reference is
  null; otherwise the click handler is added to every anchor, a fresh throttled handler
  is created and added to the window, and it is called once. The state follows one run
  of the effect, from here to its clean-up.
\<close>

definition effect :: "page \<Rightarrow> completion \<times> page" where
  "effect p =
     (case tocEl p of
        None \<Rightarrow> (Normal, p)
      | Some anchors \<Rightarrow>
         (let p1 = p\<lparr>tocEl := Some (map (\<lambda>a. a\<lparr>click_listener := True\<rparr>) anchors)\<rparr>;
              p2 = p1\<lparr>throttle_pending := False\<rparr>;
              p3 = p2\<lparr>scroll_listener := True\<rparr>
          in onScroll True p3))"

text \<open>Lines 246 to 251, the function the effect returns: the scroll handler is removed
  from the window and the click handler from every anchor. Nothing else is done; in
  particular the throttled function is not cancelled.\<close>

definition cleanup :: "page \<Rightarrow> page" where
  "cleanup p =
     (let p1 = p\<lparr>scroll_listener := False\<rparr>
      in p1\<lparr>tocEl := map_option (map (\<lambda>a. a\<lparr>click_listener := False\<rparr>)) (tocEl p1)\<rparr>)"

text \<open>The browser dispatches a scroll event to the window, or a click to an anchor: the
  handler runs if it is registered. A click lands on the anchor itself or, when \<open>inside\<close>
  is true, on an element inside it.\<close>

definition dispatch_scroll :: "bool \<Rightarrow> page \<Rightarrow> completion \<times> page" where
  "dispatch_scroll window_over p =
     (if scroll_listener p then onScroll window_over p else (Normal, p))"

definition click_event :: "anchor \<Rightarrow> bool \<Rightarrow> event" where
  "click_event a inside =
     \<lparr>target = (if inside then Descendant else AnchorNode a), defaultPrevented = False\<rparr>"

definition dispatch_click ::
  "(real \<Rightarrow> real) \<Rightarrow> location \<Rightarrow> anchor \<Rightarrow> bool \<Rightarrow> page
     \<Rightarrow> completion \<times> event \<times> page" where
  "dispatch_click fl loc a inside p =
     (let e = click_event a inside
      in if click_listener a then onClick fl loc e p else (Normal, e, p))"

subsection \<open>Rendering: the TOC panel and the navigation row\<close>

text \<open>An optional string of the page data is \<open>None\<close> when it is \<open>undefined\<close> or \<open>null\<close>.
  JavaScript takes such a value as true when it is there and not the empty string.\<close>

definition truthy :: "string option \<Rightarrow> bool" where
  "truthy v = (case v of None \<Rightarrow> False | Some s \<Rightarrow> s \<noteq> [])"

text \<open>Lines 254 to 260.\<close>

definition justifyContent :: "string option \<Rightarrow> string option \<Rightarrow> string" where
  "justifyContent prevSlug nextSlug =
     (let j0 = ''flex-start'';
          j1 = (if truthy prevSlug \<and> truthy nextSlug then ''space-between'' else j0);
          j2 = (if \<not> truthy prevSlug \<and> truthy nextSlug then ''flex-end'' else j1)
      in j2)"

text \<open>Lines 286 to 303: the row, when it is rendered, with its \<open>justifyContent\<close> style and
  the link (slug and title) of each sibling that is there.\<close>

record doc_nav =
  nav_justify :: string
  nav_prev :: "(string \<times> string option) option"
  nav_next :: "(string \<times> string option) option"

definition nav_item :: "string option \<Rightarrow> string option \<Rightarrow> (string \<times> string option) option" where
  "nav_item slug ttl =
     (case slug of None \<Rightarrow> None | Some s \<Rightarrow> if s \<noteq> [] then Some (s, ttl) else None)"

definition render_DocNav ::
  "string option \<Rightarrow> string option \<Rightarrow> string option \<Rightarrow> string option \<Rightarrow> doc_nav option" where
  "render_DocNav prevSlug prevTitle nextSlug nextTitle =
     (if truthy prevSlug \<or> truthy nextSlug
      then Some \<lparr>nav_justify = justifyContent prevSlug nextSlug,
                 nav_prev = nav_item prevSlug prevTitle,
                 nav_next = nav_item nextSlug nextTitle\<rparr>
      else None)"

text \<open>Lines 305 to 309: the TOC panel is always part of the output; \<open>toc\<close> of the
  frontmatter (\<open>None\<close> when absent) only sets its visibility.\<close>

record toc_panel =
  visibility :: string
  innerHTML :: string

definition render_Toc :: "bool option \<Rightarrow> string \<Rightarrow> toc_panel" where
  "render_Toc toc tableOfContents =
     \<lparr>visibility = (if toc = Some False then ''hidden'' else ''visible''),
      innerHTML = tableOfContents\<rparr>"

subsection \<open>Notions used by the properties\<close>

text \<open>The text after the first \<open>#\<close> of an \<open>href\<close>, as both handlers compute it.\<close>

abbreviation hash_of :: "string \<Rightarrow> string" where
  "hash_of h \<equiv> slice h (indexOf h CHR ''#'' + 1)"

text \<open>The fragment of a URL: what follows its first \<open>#\<close>, empty when there is none.\<close>

definition fragment :: "string \<Rightarrow> string" where
  "fragment url =
     (if CHR ''#'' \<in> set url then tl (dropWhile (\<lambda>d. d \<noteq> CHR ''#'') url) else [])"

text \<open>An anchor is well formed when \<open>decodeURIComponent\<close> accepts its fragment; its
  target heading is the element its decoded fragment names, if any; it qualifies when
  that heading lies above a quarter of the viewport height \<open>h\<close>; it is active when its
  class list holds \<open>active\<close>.\<close>

definition well_formed :: "anchor \<Rightarrow> bool" where
  "well_formed a =
     (case decodeURIComponent (hash_of (href a)) of Inl err \<Rightarrow> False | Inr i \<Rightarrow> True)"

definition target_heading :: "element list \<Rightarrow> anchor \<Rightarrow> element option" where
  "target_heading doc a =
     (case decodeURIComponent (hash_of (href a)) of
        Inl err \<Rightarrow> None
      | Inr i \<Rightarrow> getElementById doc i)"

definition qualifies :: "element list \<Rightarrow> real \<Rightarrow> anchor \<Rightarrow> bool" where
  "qualifies doc h a =
     (case target_heading doc a of None \<Rightarrow> False | Some el \<Rightarrow> rect_top el < h / 4)"

definition is_active :: "anchor \<Rightarrow> bool" where
  "is_active a = (''active'' \<in> set (classList a))"

subsection \<open>A sample page\<close>

text \<open>Four headings at the offsets 500, 50, -10 and 300 in a viewport 600 high, so that
  the quarter of the height is 150, and a TOC with one anchor for each.\<close>

definition example_document :: "element list" where
  "example_document =
     [\<lparr>el_id = ''h0'', rect_top = 500\<rparr>, \<lparr>el_id = ''h1'', rect_top = 50\<rparr>,
      \<lparr>el_id = ''h2'', rect_top = - 10\<rparr>, \<lparr>el_id = ''h3'', rect_top = 300\<rparr>]"

definition example_anchor :: "string \<Rightarrow> anchor" where
  "example_anchor h = \<lparr>href = h, classList = [], click_listener = False\<rparr>"

definition example_toc :: "string list \<Rightarrow> page" where
  "example_toc hs =
     \<lparr>tocEl = Some (map example_anchor hs),
      document = example_document, innerHeight = 600, scrollY = 1000,
      history_calls = [], scrollTo_calls = [], scroll_listener = False,
      throttle_pending = False\<rparr>"

definition example_page :: page where
  "example_page =
     example_toc [''https://goproxy.io/docs/#h0'', ''https://goproxy.io/docs/#h1'',
                  ''https://goproxy.io/docs/#h2'', ''https://goproxy.io/docs/#h3'']"

definition example_location :: location where
  "example_location = \<lparr>pathname = ''/docs/'', search = ''?v=1''\<rparr>"

text \<open>A click on the anchor with the given \<open>href\<close> itself.\<close>

definition click_on :: "string \<Rightarrow> event" where
  "click_on h = \<lparr>target = AnchorNode (example_anchor h), defaultPrevented = False\<rparr>"

text \<open>All measures and sums of the sample pages are whole numbers far below \<open>2^53\<close>,
  which a double holds exactly, so that on them the rounding changes nothing.\<close>

definition exact :: "real \<Rightarrow> real" where
  "exact v = v"

text \<open>An anchor as the effect leaves it, with the click handler registered.\<close>

definition listening_anchor :: "string \<Rightarrow> anchor" where
  "listening_anchor h = \<lparr>href = h, classList = [], click_listener = True\<rparr>"

text \<open>A TOC whose only anchor has an \<open>href\<close> with an escape and no \<open>#\<close>, on a
  document with an element whose id is the decoded \<open>href\<close>.\<close>

definition escaped_page :: page where
  "escaped_page =
     (example_toc [''https://goproxy.io/docs/a%41''])
       \<lparr>document := [\<lparr>el_id = ''https://goproxy.io/docs/aA'', rect_top = 40\<rparr>]\<rparr>"

subsection \<open>Notions used by the properties of the scroll handler\<close>

text \<open>What an iteration of the loop that is not cut short by an error does to its
  anchor: the marker is removed when the target heading is found.\<close>

definition visit :: "element list \<Rightarrow> anchor \<Rightarrow> anchor" where
  "visit doc a =
     (case target_heading doc a of
        None \<Rightarrow> a
      | Some el \<Rightarrow> a\<lparr>classList := classList_remove (classList a) ''active''\<rparr>)"

text \<open>The index of the last qualifying anchor of a list whose first anchor has the
  index \<open>i\<close>, or \<open>act\<close> when no anchor of the list qualifies.\<close>

fun last_qualifying ::
  "element list \<Rightarrow> real \<Rightarrow> anchor list \<Rightarrow> nat \<Rightarrow> nat option \<Rightarrow> nat option" where
  "last_qualifying doc h [] i act = act"
| "last_qualifying doc h (a # as) i act =
     last_qualifying doc h as (Suc i) (if qualifies doc h a then Some i else act)"

text \<open>A TOC on the sample document in which the anchor of a heading that is gone still
  bears the marker.\<close>

definition stale_page :: page where
  "stale_page =
     (example_toc [])\<lparr>tocEl := Some
        [\<lparr>href = ''https://goproxy.io/docs/#gone'', classList = [''active''],
          click_listener = False\<rparr>,
         example_anchor ''https://goproxy.io/docs/#h2'']\<rparr>"

text \<open>A TOC on the sample document whose second anchor has a fragment that is not a
  well-formed escape sequence.\<close>

definition malformed_page :: page where
  "malformed_page =
     example_toc [''https://goproxy.io/docs/#h2'', ''https://goproxy.io/docs/#100%'',
                  ''https://goproxy.io/docs/#h1'']"

text \<open>A TOC on the sample document whose first anchor has a malformed fragment and
  whose second anchor bears the marker and points to the heading \<open>h3\<close>.\<close>

definition blocked_page :: page where
  "blocked_page =
     (example_toc [])\<lparr>tocEl := Some
        [example_anchor ''https://goproxy.io/docs/#100%'',
         \<lparr>href = ''https://goproxy.io/docs/#h3'', classList = [''active''],
          click_listener = False\<rparr>]\<rparr>"

text \<open>
  The sample page after these steps: the effect runs; the reader scrolls down by 400, so
  that every heading lies 400 higher; the scroll event arrives within the window of the
  invocation the effect made, so the throttle leaves a timer pending; the clean-up of
  the effect runs.
\<close>

definition scrolled_document :: "element list" where
  "scrolled_document =
     [\<lparr>el_id = ''h0'', rect_top = 100\<rparr>, \<lparr>el_id = ''h1'', rect_top = - 350\<rparr>,
      \<lparr>el_id = ''h2'', rect_top = - 410\<rparr>, \<lparr>el_id = ''h3'', rect_top = - 100\<rparr>]"

definition detached_page :: page where
  "detached_page =
     cleanup (snd (dispatch_scroll False
       ((snd (effect example_page))\<lparr>document := scrolled_document, scrollY := 1400\<rparr>)))"

text \<open>The TOC of the sample document with an anchor for a heading that is gone and one
  for the heading \<open>h1\<close>, as the effect leaves it.\<close>

definition attached_page :: page where
  "attached_page =
     snd (effect (example_toc [''https://goproxy.io/docs/#gone'',
         ''https://goproxy.io/docs/#h1'']))"

text \<open>A fresh TOC on the sample document in which two anchors point to headings that
  are missing.\<close>

definition skipping_page :: page where
  "skipping_page =
     example_toc [''https://goproxy.io/docs/#gone'', ''https://goproxy.io/docs/#h0'',
                  ''https://goproxy.io/docs/#gone2'', ''https://goproxy.io/docs/#h2'']"

section \<open>Properties\<close>

subsection \<open>Strings\<close>

lemma takeWhile_shorter:
  "c \<in> set h \<Longrightarrow> length (takeWhile (\<lambda>d. d \<noteq> c) h) < length h"
  by (induction h) auto

lemma hash_of_eq:
  "hash_of h = (if CHR ''#'' \<in> set h then tl (dropWhile (\<lambda>d. d \<noteq> CHR ''#'') h) else h)"
proof (cases "CHR ''#'' \<in> set h")
  case True
  have "slice h (indexOf h CHR ''#'' + 1)
          = drop (Suc (length (takeWhile (\<lambda>d. d \<noteq> CHR ''#'') h))) h"
    using True takeWhile_shorter [OF True]
    by (simp add: indexOf_def slice_def Let_def nat_add_distrib min_def)
  also have "\<dots> = tl (dropWhile (\<lambda>d. d \<noteq> CHR ''#'') h)"
    by (simp add: dropWhile_eq_drop drop_Suc tl_drop)
  finally show ?thesis using True by simp
next
  case False
  then show ?thesis by (simp add: indexOf_def slice_def)
qed

lemma hash_of_append:
  "CHR ''#'' \<notin> set u \<Longrightarrow> hash_of (u @ ''#'' @ f) = f"
  by (simp add: hash_of_eq dropWhile_append1 dropWhile_append)

lemma decode_no_percent:
  "CHR ''%'' \<notin> set s \<Longrightarrow> decodeURIComponent s = Inr s"
  by (induction s) auto

lemma prepend_Inl: "prepend s r = Inl e \<longleftrightarrow> r = Inl e"
  by (cases r) auto

lemma decode_error:
  "decodeURIComponent s = Inl e \<Longrightarrow> e = URIError"
proof (induction s rule: decodeURIComponent.induct)
  case 1
  then show ?case by simp
next
  case (2 c s)
  show ?case
  proof (cases "c \<noteq> CHR ''%''")
    case True
    with "2.prems" have "decodeURIComponent s = Inl e"
      by (simp add: prepend_Inl)
    with "2.IH"(1) True show ?thesis by simp
  next
    case False
    then have c: "c = CHR ''%''" by simp
    show ?thesis
    proof (cases "length s < 2")
      case True
      with "2.prems" c show ?thesis by simp
    next
      case long: False
      show ?thesis
      proof (cases "ParseHexOctet (take 2 s)")
        case None
        with "2.prems" c long show ?thesis by simp
      next
        case (Some B)
        show ?thesis
        proof (cases "leading_ones B = 0")
          case True
          with "2.prems" c long Some have "decodeURIComponent (drop 2 s) = Inl e"
            by (simp add: prepend_Inl)
          with "2.IH"(2) c long Some True show ?thesis by simp
        next
          case n0: False
          show ?thesis
          proof (cases "leading_ones B = 1 \<or> leading_ones B > 4
              \<or> length (drop 2 s) < 3 * (leading_ones B - 1)")
            case True
            with "2.prems" c long Some n0 show ?thesis by (auto split: if_splits)
          next
            case ok: False
            show ?thesis
            proof (cases "escaped_octets (take (3 * (leading_ones B - 1)) (drop 2 s))")
              case None
              with "2.prems" c long Some n0 ok show ?thesis by (auto split: if_splits)
            next
              case bs: (Some bs)
              show ?thesis
              proof (cases "valid_utf8 (B # bs)")
                case True
                with "2.prems" c long Some n0 ok bs
                have "decodeURIComponent (drop (3 * (leading_ones B - 1)) (drop 2 s)) = Inl e"
                  by (auto simp: prepend_Inl split: if_splits)
                with "2.IH"(3) [OF _ _ Some n0 _ _ bs True] c long ok show ?thesis
                  by auto
              next
                case False
                with "2.prems" c long Some n0 ok bs show ?thesis by (auto split: if_splits)
              qed
            qed
          qed
        qed
      qed
    qed
  qed
qed

subsection \<open>Clicks\<close>

lemma fragment_append:
  "CHR ''#'' \<notin> set u \<Longrightarrow> fragment (u @ ''#'' @ f) = f"
  by (simp add: fragment_def dropWhile_append1 dropWhile_append)

lemma fragment_hash_of:
  "CHR ''#'' \<in> set h \<Longrightarrow> fragment h = hash_of h"
  by (simp add: fragment_def hash_of_eq)

text \<open>A click that lands on an element inside the anchor: the handler prevents the
  default and throws, whatever the anchor and the page are.\<close>

lemma onClick_descendant:
  "target e = Descendant \<Longrightarrow>
     onClick fl loc e p = (Throw TypeError, e\<lparr>defaultPrevented := True\<rparr>, p)"
  by (simp add: onClick_def Let_def)

text \<open>A click that lands on the anchor itself, for a fragment that decodes to an id no
  element has: the page is left as it was and nothing is thrown.\<close>

lemma onClick_anchor_missing_target:
  assumes "target e = AnchorNode a"
    and "decodeURIComponent (hash_of (href a)) = Inr i"
    and "getElementById (document p) i = None"
  shows "onClick fl loc e p = (Normal, e\<lparr>defaultPrevented := True\<rparr>, p)"
  using assms by (simp add: onClick_def Let_def)

text \<open>A click that lands on the anchor itself, for a fragment that decodes to the id of
  an element: one \<open>replaceState\<close> and one smooth \<open>scrollTo\<close>.\<close>

lemma onClick_anchor_existing_target:
  assumes "target e = AnchorNode a"
    and "decodeURIComponent (hash_of (href a)) = Inr i"
    and "getElementById (document p) i = Some el"
  shows "onClick fl loc e p =
           (Normal, e\<lparr>defaultPrevented := True\<rparr>,
            p\<lparr>history_calls := history_calls p @
                 [ReplaceState (pathname loc @ search loc @ ''#'' @ hash_of (href a))],
              scrollTo_calls := scrollTo_calls p @
                 [\<lparr>opt_x = 0, opt_y = fl (fl (scrollY p + rect_top el) - 102),
                   behavior = ''smooth''\<rparr>]\<rparr>)"
  using assms by (simp add: onClick_def Let_def)

text \<open>The fragment of the URL handed to \<open>replaceState\<close> is the text the handler took
  from the \<open>href\<close>, which is the fragment of the \<open>href\<close> when the \<open>href\<close> has a \<open>#\<close>.
  (\<open>pathname\<close> and \<open>search\<close> of a location hold no \<open>#\<close>.)\<close>

lemma replaced_url_fragment:
  assumes "CHR ''#'' \<notin> set (pathname loc)" and "CHR ''#'' \<notin> set (search loc)"
  shows "fragment (pathname loc @ search loc @ ''#'' @ hash_of h) = hash_of h"
    and "CHR ''#'' \<in> set h \<Longrightarrow>
           fragment (pathname loc @ search loc @ ''#'' @ hash_of h) = fragment h"
proof -
  show f: "fragment (pathname loc @ search loc @ ''#'' @ hash_of h) = hash_of h"
    using assms fragment_append [of "pathname loc @ search loc" "hash_of h"] by simp
  show "fragment (pathname loc @ search loc @ ''#'' @ hash_of h) = fragment h"
    if "CHR ''#'' \<in> set h"
    using f that by (simp add: fragment_hash_of)
qed

lemma decode_example_hashes:
  "decodeURIComponent (hash_of ''https://goproxy.io/docs/#h0'') = Inr ''h0''"
  "decodeURIComponent (hash_of ''https://goproxy.io/docs/#h1'') = Inr ''h1''"
  "decodeURIComponent (hash_of ''https://goproxy.io/docs/#h2'') = Inr ''h2''"
  "decodeURIComponent (hash_of ''https://goproxy.io/docs/#h3'') = Inr ''h3''"
  "decodeURIComponent (hash_of ''https://goproxy.io/docs/#gone'') = Inr ''gone''"
  by (simp_all add: indexOf_def slice_def)

lemma attached_page_eq:
  "attached_page =
      \<lparr>tocEl = Some
         [listening_anchor ''https://goproxy.io/docs/#gone'',
          (listening_anchor ''https://goproxy.io/docs/#h1'')\<lparr>classList := [''active'']\<rparr>],
       document = example_document, innerHeight = 600, scrollY = 1000,
       history_calls = [], scrollTo_calls = [], scroll_listener = True,
       throttle_pending = False\<rparr>"
  by (simp add: attached_page_def effect_def example_toc_def example_anchor_def Let_def
        listening_anchor_def
        onScroll_def onScroll_body_def decode_example_hashes getElementById_def
        example_document_def classList_remove_def classList_add_def
        del: decodeURIComponent.simps)

lemma attached_page_lookup:
  "getElementById (document attached_page) ''gone'' = None"
  "getElementById (document attached_page) ''h1'' = Some \<lparr>el_id = ''h1'', rect_top = 50\<rparr>"
  by (simp_all add: attached_page_eq getElementById_def example_document_def)

lemma listening_anchor_fields:
  "href (listening_anchor h) = h" "click_listener (listening_anchor h)"
  "href ((listening_anchor h)\<lparr>classList := cl\<rparr>) = h"
  "click_listener ((listening_anchor h)\<lparr>classList := cl\<rparr>)"
  by (simp_all add: listening_anchor_def)

lemma click_event_target:
  "target (click_event a False) = AnchorNode a" "target (click_event a True) = Descendant"
  by (simp_all add: click_event_def)

text \<open>
  C3 does not hold of the handler. The anchor with the fragment \<open>gone\<close> of the attached
  sample TOC has a well-formed fragment that names no element. A click that lands on
  the anchor itself changes nothing and throws nothing, as the claim says. A click that
  lands on an element inside the anchor bubbles to the same handler, which reads the
  \<open>href\<close> of that element and throws a \<open>TypeError\<close>.
\<close>

theorem dispatch_click_inside_missing_target:
  "tocEl attached_page = Some
     [listening_anchor ''https://goproxy.io/docs/#gone'',
      (listening_anchor ''https://goproxy.io/docs/#h1'')\<lparr>classList := [''active'']\<rparr>]
   \<and> decodeURIComponent (hash_of (href (listening_anchor ''https://goproxy.io/docs/#gone'')))
       = Inr ''gone''
   \<and> getElementById (document attached_page) ''gone'' = None
   \<and> dispatch_click exact example_location
         (listening_anchor ''https://goproxy.io/docs/#gone'') False attached_page
       = (Normal,
          (click_event (listening_anchor ''https://goproxy.io/docs/#gone'') False)
            \<lparr>defaultPrevented := True\<rparr>,
          attached_page)
   \<and> dispatch_click exact example_location
         (listening_anchor ''https://goproxy.io/docs/#gone'') True attached_page
       = (Throw TypeError,
          (click_event (listening_anchor ''https://goproxy.io/docs/#gone'') True)
            \<lparr>defaultPrevented := True\<rparr>,
          attached_page)"
proof -
  let ?a = "listening_anchor ''https://goproxy.io/docs/#gone''"
  have d: "decodeURIComponent (hash_of (href ?a)) = Inr ''gone''"
    by (simp only: listening_anchor_fields decode_example_hashes)
  have 1: "dispatch_click exact example_location ?a False attached_page
       = (Normal, (click_event ?a False)\<lparr>defaultPrevented := True\<rparr>, attached_page)"
    using onClick_anchor_missing_target [OF click_event_target(1) d attached_page_lookup(1)]
    by (simp add: dispatch_click_def listening_anchor_fields)
  have 2: "dispatch_click exact example_location ?a True attached_page
       = (Throw TypeError, (click_event ?a True)\<lparr>defaultPrevented := True\<rparr>, attached_page)"
    using onClick_descendant [OF click_event_target(2)]
    by (simp add: dispatch_click_def listening_anchor_fields)
  show ?thesis
    using d 1 2 attached_page_lookup(1) by (simp add: attached_page_eq)
qed

text \<open>
  C4 does not hold of the handler. The anchor with the fragment \<open>h1\<close> of the attached
  sample TOC resolves to the heading \<open>h1\<close> at the offset 50, with the page scrolled to
  1000. A click that lands on the anchor itself does what the claim says: the default is
  prevented, the history entry is replaced by \<open>/docs/?v=1#h1\<close> and one smooth scroll to
  \<open>1000 + 50 - 102 = 948\<close> starts. A click that lands on an element inside the anchor
  prevents the default and throws a \<open>TypeError\<close>: no history entry is replaced and no
  scroll starts.
\<close>

theorem dispatch_click_inside_existing_target:
  "decodeURIComponent (hash_of (href
       ((listening_anchor ''https://goproxy.io/docs/#h1'')\<lparr>classList := [''active'']\<rparr>)))
       = Inr ''h1''
   \<and> getElementById (document attached_page) ''h1'' = Some \<lparr>el_id = ''h1'', rect_top = 50\<rparr>
   \<and> dispatch_click exact example_location
         ((listening_anchor ''https://goproxy.io/docs/#h1'')\<lparr>classList := [''active'']\<rparr>)
         False attached_page
       = (Normal,
          (click_event
             ((listening_anchor ''https://goproxy.io/docs/#h1'')\<lparr>classList := [''active'']\<rparr>)
             False)\<lparr>defaultPrevented := True\<rparr>,
          attached_page\<lparr>history_calls := [ReplaceState ''/docs/?v=1#h1''],
            scrollTo_calls := [\<lparr>opt_x = 0, opt_y = 948, behavior = ''smooth''\<rparr>]\<rparr>)
   \<and> dispatch_click exact example_location
         ((listening_anchor ''https://goproxy.io/docs/#h1'')\<lparr>classList := [''active'']\<rparr>)
         True attached_page
       = (Throw TypeError,
          (click_event
             ((listening_anchor ''https://goproxy.io/docs/#h1'')\<lparr>classList := [''active'']\<rparr>)
             True)\<lparr>defaultPrevented := True\<rparr>,
          attached_page)"
proof -
  let ?a = "(listening_anchor ''https://goproxy.io/docs/#h1'')\<lparr>classList := [''active'']\<rparr>"
  have d: "decodeURIComponent (hash_of (href ?a)) = Inr ''h1''"
    by (simp only: listening_anchor_fields decode_example_hashes)
  have v: "hash_of ''https://goproxy.io/docs/#h1'' = ''h1''"
    by (simp add: indexOf_def slice_def)
  have q: "history_calls attached_page = []" "scrollTo_calls attached_page = []"
    "scrollY attached_page = 1000" "pathname example_location = ''/docs/''"
    "search example_location = ''?v=1''"
    by (simp_all add: attached_page_eq example_location_def)
  have 1: "dispatch_click exact example_location ?a False attached_page
       = (Normal, (click_event ?a False)\<lparr>defaultPrevented := True\<rparr>,
          attached_page\<lparr>history_calls := [ReplaceState ''/docs/?v=1#h1''],
            scrollTo_calls := [\<lparr>opt_x = 0, opt_y = 948, behavior = ''smooth''\<rparr>]\<rparr>)"
    using onClick_anchor_existing_target [OF click_event_target(1) d attached_page_lookup(2),
        of exact example_location]
    by (simp add: dispatch_click_def listening_anchor_fields q v exact_def)
  have 2: "dispatch_click exact example_location ?a True attached_page
       = (Throw TypeError, (click_event ?a True)\<lparr>defaultPrevented := True\<rparr>, attached_page)"
    using onClick_descendant [OF click_event_target(2)]
    by (simp add: dispatch_click_def listening_anchor_fields)
  show ?thesis
    using d 1 2 attached_page_lookup(2) by simp
qed

lemma click_on_fields:
  "target (click_on h) = AnchorNode (example_anchor h)" "href (example_anchor h) = h"
  by (simp_all add: click_on_def example_anchor_def)

text \<open>
  C10, as stated, fails: the id looked up is not the \<open>href\<close> itself but the \<open>href\<close>
  decoded by \<open>decodeURIComponent\<close>. With the \<open>href\<close> \<open>https://goproxy.io/docs/a%41\<close> no
  element has the \<open>href\<close> as its id, yet a click on the anchor finds the element with
  the id \<open>https://goproxy.io/docs/aA\<close>, replaces the history entry and scrolls.
\<close>

theorem onClick_without_hash_counterexample:
  "target (click_on ''https://goproxy.io/docs/a%41'')
     = AnchorNode (example_anchor ''https://goproxy.io/docs/a%41'')
   \<and> CHR ''#'' \<notin> set (href (example_anchor ''https://goproxy.io/docs/a%41''))
   \<and> getElementById (document escaped_page)
         (href (example_anchor ''https://goproxy.io/docs/a%41'')) = None
   \<and> onClick exact example_location (click_on ''https://goproxy.io/docs/a%41'') escaped_page =
       (Normal, (click_on ''https://goproxy.io/docs/a%41'')\<lparr>defaultPrevented := True\<rparr>,
        escaped_page\<lparr>history_calls :=
            [ReplaceState ''/docs/?v=1#https://goproxy.io/docs/a%41''],
          scrollTo_calls := [\<lparr>opt_x = 0, opt_y = 938, behavior = ''smooth''\<rparr>]\<rparr>)"
proof -
  let ?a = "example_anchor ''https://goproxy.io/docs/a%41''"
  have h: "hash_of ''https://goproxy.io/docs/a%41'' = ''https://goproxy.io/docs/a%41''"
    by (simp add: indexOf_def slice_def)
  have d0: "decodeURIComponent ''https://goproxy.io/docs/a%41''
       = Inr ''https://goproxy.io/docs/aA''"
    by code_simp
  have d: "decodeURIComponent (hash_of (href ?a)) = Inr ''https://goproxy.io/docs/aA''"
    by (simp only: click_on_fields h d0)
  have g: "getElementById (document escaped_page) ''https://goproxy.io/docs/aA''
       = Some \<lparr>el_id = ''https://goproxy.io/docs/aA'', rect_top = 40\<rparr>"
    "getElementById (document escaped_page) ''https://goproxy.io/docs/a%41'' = None"
    by (simp_all add: getElementById_def escaped_page_def)
  have q: "history_calls escaped_page = []" "scrollTo_calls escaped_page = []"
    "scrollY escaped_page = 1000" "pathname example_location = ''/docs/''"
    "search example_location = ''?v=1''"
    by (simp_all add: escaped_page_def example_toc_def example_location_def)
  have "onClick exact example_location (click_on ''https://goproxy.io/docs/a%41'') escaped_page =
       (Normal, (click_on ''https://goproxy.io/docs/a%41'')\<lparr>defaultPrevented := True\<rparr>,
        escaped_page\<lparr>history_calls :=
            [ReplaceState ''/docs/?v=1#https://goproxy.io/docs/a%41''],
          scrollTo_calls := [\<lparr>opt_x = 0, opt_y = 938, behavior = ''smooth''\<rparr>]\<rparr>)"
    using onClick_anchor_existing_target [OF click_on_fields(1) d g(1), of exact example_location]
    by (simp add: q h click_on_fields exact_def)
  then show ?thesis
    by (simp add: click_on_fields g)
qed

text \<open>
  C10, amended. For a click that lands on a TOC anchor whose \<open>href\<close> holds no \<open>#\<close>, the
  default navigation is prevented and the whole \<open>href\<close>, decoded by
  \<open>decodeURIComponent\<close>, is the id that is looked up: if the decoding fails the error is
  thrown and the page is unchanged; if no element has the decoded id the click changes
  neither the history nor the scroll position; otherwise the history entry is replaced
  and a scroll to that element starts. An \<open>href\<close> without \<open>%\<close> decodes to itself.
\<close>

theorem onClick_without_hash:
  assumes "target e = AnchorNode a" and "CHR ''#'' \<notin> set (href a)"
  shows "defaultPrevented (fst (snd (onClick fl loc e p)))
     \<and> (\<forall>err. decodeURIComponent (href a) = Inl err \<longrightarrow>
           onClick fl loc e p = (Throw err, e\<lparr>defaultPrevented := True\<rparr>, p))
     \<and> (\<forall>i. decodeURIComponent (href a) = Inr i \<longrightarrow>
           (getElementById (document p) i = None \<longrightarrow>
              onClick fl loc e p = (Normal, e\<lparr>defaultPrevented := True\<rparr>, p))
         \<and> (\<forall>el. getElementById (document p) i = Some el \<longrightarrow>
              onClick fl loc e p =
                (Normal, e\<lparr>defaultPrevented := True\<rparr>,
                 p\<lparr>history_calls := history_calls p @
                      [ReplaceState (pathname loc @ search loc @ ''#'' @ href a)],
                   scrollTo_calls := scrollTo_calls p @
                      [\<lparr>opt_x = 0, opt_y = fl (fl (scrollY p + rect_top el) - 102),
                        behavior = ''smooth''\<rparr>]\<rparr>)))
     \<and> (CHR ''%'' \<notin> set (href a) \<longrightarrow> decodeURIComponent (href a) = Inr (href a))"
proof -
  have h: "hash_of (href a) = href a"
    using assms(2) by (simp add: hash_of_eq)
  show ?thesis
    using assms(1)
    by (auto simp: onClick_def Let_def h decode_no_percent split: sum.splits option.splits)
qed

theorem onClick_without_hash_witness:
  "target (click_on ''https://goproxy.io/docs/intro'')
     = AnchorNode (example_anchor ''https://goproxy.io/docs/intro'')
   \<and> CHR ''#'' \<notin> set (href (example_anchor ''https://goproxy.io/docs/intro''))
   \<and> CHR ''%'' \<notin> set (href (example_anchor ''https://goproxy.io/docs/intro''))
   \<and> decodeURIComponent (href (example_anchor ''https://goproxy.io/docs/intro''))
       = Inr ''https://goproxy.io/docs/intro''
   \<and> getElementById (document example_page) ''https://goproxy.io/docs/intro'' = None
   \<and> onClick exact example_location (click_on ''https://goproxy.io/docs/intro'') example_page
       = (Normal, (click_on ''https://goproxy.io/docs/intro'')\<lparr>defaultPrevented := True\<rparr>,
          example_page)"
proof -
  let ?a = "example_anchor ''https://goproxy.io/docs/intro''"
  have a: "CHR ''#'' \<notin> set (href ?a)" and b: "CHR ''%'' \<notin> set (href ?a)"
    by (simp_all add: click_on_fields)
  have g: "getElementById (document example_page) ''https://goproxy.io/docs/intro'' = None"
    by (simp add: getElementById_def example_page_def example_toc_def example_document_def)
  show ?thesis
    using a b g
      onClick_without_hash [OF click_on_fields(1) a, of exact example_location example_page]
    by (simp add: click_on_fields)
qed

subsection \<open>Rendering\<close>

text \<open>
  C8. With \<open>toc\<close> of the frontmatter equal to \<open>false\<close> the TOC panel is rendered with the
  visibility \<open>hidden\<close> and still carries the TOC markup; with any other value (\<open>true\<close>, or
  none at all) it carries the same markup with the visibility \<open>visible\<close>.
\<close>

theorem render_Toc_visibility:
  "render_Toc (Some False) html = \<lparr>visibility = ''hidden'', innerHTML = html\<rparr>
   \<and> (toc \<noteq> Some False \<longrightarrow>
        render_Toc toc html = \<lparr>visibility = ''visible'', innerHTML = html\<rparr>)"
  by (simp add: render_Toc_def)

theorem render_Toc_visibility_witness:
  "render_Toc (Some False) ''<ul><li>Install</li></ul>''
     = \<lparr>visibility = ''hidden'', innerHTML = ''<ul><li>Install</li></ul>''\<rparr>
   \<and> render_Toc None ''<ul><li>Install</li></ul>''
     = \<lparr>visibility = ''visible'', innerHTML = ''<ul><li>Install</li></ul>''\<rparr>
   \<and> render_Toc (Some True) ''<ul><li>Install</li></ul>''
     = \<lparr>visibility = ''visible'', innerHTML = ''<ul><li>Install</li></ul>''\<rparr>"
  using render_Toc_visibility [of "''<ul><li>Install</li></ul>''" None]
    render_Toc_visibility [of "''<ul><li>Install</li></ul>''" "Some True"]
  by simp

text \<open>
  C9. A sibling slug is there when it is defined and not empty, which is what the
  template tests. With both slugs there the row is justified \<open>space-between\<close>, with only
  the next one \<open>flex-end\<close>, and otherwise \<open>flex-start\<close>; the row is rendered exactly when
  one of the two slugs is there, and then carries that justification.
\<close>

theorem justifyContent_cases:
  "(truthy prevSlug \<and> truthy nextSlug \<longrightarrow> justifyContent prevSlug nextSlug = ''space-between'')
   \<and> (\<not> truthy prevSlug \<and> truthy nextSlug \<longrightarrow> justifyContent prevSlug nextSlug = ''flex-end'')
   \<and> (\<not> truthy nextSlug \<longrightarrow> justifyContent prevSlug nextSlug = ''flex-start'')
   \<and> (render_DocNav prevSlug prevTitle nextSlug nextTitle \<noteq> None
         \<longleftrightarrow> truthy prevSlug \<or> truthy nextSlug)
   \<and> (\<forall>nav. render_DocNav prevSlug prevTitle nextSlug nextTitle = Some nav \<longrightarrow>
         nav_justify nav = justifyContent prevSlug nextSlug)"
  by (auto simp: justifyContent_def render_DocNav_def Let_def)

theorem justifyContent_cases_witness:
  "truthy (Some ''/docs/a'') \<and> truthy (Some ''/docs/c'') \<and> \<not> truthy None
   \<and> justifyContent (Some ''/docs/a'') (Some ''/docs/c'') = ''space-between''
   \<and> justifyContent None (Some ''/docs/c'') = ''flex-end''
   \<and> justifyContent (Some ''/docs/a'') None = ''flex-start''
   \<and> justifyContent None None = ''flex-start''
   \<and> render_DocNav None None None None = None
   \<and> render_DocNav None None (Some ''/docs/c'') (Some ''C'')
       = Some \<lparr>nav_justify = ''flex-end'', nav_prev = None,
                nav_next = Some (''/docs/c'', Some ''C'')\<rparr>"
proof -
  have t: "truthy (Some ''/docs/a'')" "truthy (Some ''/docs/c'')" "\<not> truthy None"
    by (simp_all add: truthy_def)
  have n: "render_DocNav None None (Some ''/docs/c'') (Some ''C'')
       = Some \<lparr>nav_justify = justifyContent None (Some ''/docs/c''), nav_prev = None,
                nav_next = Some (''/docs/c'', Some ''C'')\<rparr>"
    by (simp add: render_DocNav_def t nav_item_def)
  show ?thesis
    using t justifyContent_cases [of "Some ''/docs/a''" "Some ''/docs/c''" None None]
      justifyContent_cases [of None "Some ''/docs/c''" None "Some ''C''"]
      justifyContent_cases [of "Some ''/docs/a''" None None None]
      justifyContent_cases [of None None None None]
    by (simp add: n)
qed

subsection \<open>The pass of the scroll handler over the anchors\<close>

lemma well_formed_cases:
  "well_formed a \<longleftrightarrow> (\<exists>i. decodeURIComponent (hash_of (href a)) = Inr i)"
  by (simp add: well_formed_def split: sum.split)

lemma not_well_formed:
  "\<not> well_formed a \<longleftrightarrow> decodeURIComponent (hash_of (href a)) = Inl URIError"
  by (auto simp: well_formed_def split: sum.split dest: decode_error)

lemma last_qualifying_snoc:
  "last_qualifying doc h (as @ [a]) i act =
     (if qualifies doc h a then Some (i + length as) else last_qualifying doc h as i act)"
  by (induction as arbitrary: i act) auto

lemma last_qualifying_None:
  "last_qualifying doc h as 0 None = None \<longleftrightarrow> (\<forall>k<length as. \<not> qualifies doc h (as ! k))"
  by (induction as rule: rev_induct)
     (auto simp: last_qualifying_snoc nth_append less_Suc_eq)

lemma last_qualifying_Some:
  "last_qualifying doc h as 0 None = Some k \<longleftrightarrow>
     k < length as \<and> qualifies doc h (as ! k)
     \<and> (\<forall>j. k < j \<and> j < length as \<longrightarrow> \<not> qualifies doc h (as ! j))"
proof (induction as rule: rev_induct)
  case Nil
  then show ?case by simp
next
  case (snoc a as)
  show ?case
  proof (cases "qualifies doc h a")
    case True
    have "k = length as" if "k < Suc (length as)"
      and "\<forall>j. k < j \<and> j < Suc (length as) \<longrightarrow> \<not> qualifies doc h ((as @ [a]) ! j)" for k
    proof (rule ccontr)
      assume "k \<noteq> length as"
      with that(1) have "k < length as" by simp
      with that(2) [rule_format, of "length as"]
      have "\<not> qualifies doc h ((as @ [a]) ! length as)" by blast
      with True show False by simp
    qed
    with True show ?thesis
      by (auto simp: last_qualifying_snoc)
  next
    case False
    then show ?thesis
      using snoc by (auto simp: last_qualifying_snoc nth_append less_Suc_eq)
  qed
qed

lemma forEach_normal:
  "list_all well_formed as \<Longrightarrow>
     forEach_anchors doc h as i act = (Normal, map (visit doc) as, last_qualifying doc h as i act)"
proof (induction as arbitrary: i act)
  case Nil
  then show ?case by simp
next
  case (Cons a as)
  then obtain ident where d: "decodeURIComponent (hash_of (href a)) = Inr ident"
    by (auto simp: well_formed_cases)
  from Cons have ih: "\<And>i act. forEach_anchors doc h as i act
      = (Normal, map (visit doc) as, last_qualifying doc h as i act)"
    by simp
  show ?case
    by (cases "getElementById doc ident")
       (simp_all add: d ih visit_def target_heading_def qualifies_def Let_def
          del: decodeURIComponent.simps)
qed

lemma forEach_throw:
  "list_all well_formed as1 \<Longrightarrow> \<not> well_formed a \<Longrightarrow>
     forEach_anchors doc h (as1 @ a # as2) i act
       = (Throw URIError, map (visit doc) as1 @ a # as2, last_qualifying doc h as1 i act)"
proof (induction as1 arbitrary: i act)
  case Nil
  then show ?case by (simp add: not_well_formed del: decodeURIComponent.simps)
next
  case (Cons b as1)
  then obtain ident where d: "decodeURIComponent (hash_of (href b)) = Inr ident"
    by (auto simp: well_formed_cases)
  from Cons have ih: "\<And>i act. forEach_anchors doc h (as1 @ a # as2) i act
      = (Throw URIError, map (visit doc) as1 @ a # as2, last_qualifying doc h as1 i act)"
    by simp
  show ?case
    by (cases "getElementById doc ident")
       (simp_all add: d ih visit_def target_heading_def qualifies_def Let_def
          del: decodeURIComponent.simps)
qed

lemma is_active_visit:
  "target_heading doc a \<noteq> None \<Longrightarrow> \<not> is_active (visit doc a)"
  by (auto simp: visit_def is_active_def classList_remove_def)

lemma is_active_add:
  "is_active (a\<lparr>classList := classList_add (classList a) ''active''\<rparr>)"
  by (simp add: is_active_def classList_add_def)

lemma href_visit: "href (visit doc a) = href a"
  by (simp add: visit_def split: option.split)

subsection \<open>The scroll handler\<close>

lemma onScroll_body_normal:
  assumes "tocEl p = Some as" and "list_all well_formed as"
  shows "onScroll_body p =
     (Normal, p\<lparr>tocEl := Some
        (case last_qualifying (document p) (innerHeight p) as 0 None of
           None \<Rightarrow> map (visit (document p)) as
         | Some k \<Rightarrow> (map (visit (document p)) as)
             [k := (map (visit (document p)) as ! k)
                \<lparr>classList := classList_add (classList (map (visit (document p)) as ! k))
                    ''active''\<rparr>])\<rparr>)"
  using assms
  by (simp add: onScroll_body_def forEach_normal split: option.split)

lemma onScroll_body_throw:
  assumes "tocEl p = Some (as1 @ a # as2)" and "list_all well_formed as1" and "\<not> well_formed a"
  shows "onScroll_body p =
     (Throw URIError, p\<lparr>tocEl := Some (map (visit (document p)) as1 @ a # as2)\<rparr>)"
  using assms
  by (simp add: onScroll_body_def forEach_throw)

lemma visit_missing: "target_heading doc a = None \<Longrightarrow> visit doc a = a"
  by (simp add: visit_def)

lemma visit_keeps:
  "click_listener (visit doc a) = click_listener a"
  "removeAll ''active'' (classList (visit doc a)) = removeAll ''active'' (classList a)"
  by (simp_all add: visit_def classList_remove_def split: option.split)

lemma removeAll_add:
  "removeAll ''active'' (classList_add cl ''active'') = removeAll ''active'' cl"
  by (simp add: classList_add_def)

lemma qualifies_target: "qualifies doc h a \<Longrightarrow> target_heading doc a \<noteq> None"
  by (auto simp: qualifies_def split: option.splits)

text \<open>
  C1, amended. On every invocation of the scroll handler in which \<open>decodeURIComponent\<close>
  accepts the fragment of every anchor, the handler returns normally and changes nothing
  but the marker \<open>active\<close> in the class lists of the anchors. Among the anchors whose
  target heading exists, the one that bears the marker afterwards is exactly the last
  anchor in document order whose heading has a top offset strictly below a quarter of
  the viewport height; none of them bears it when no anchor qualifies. An anchor whose
  target is missing is skipped: the handler does not add the marker to it.
\<close>

theorem onScroll_body_marks_last:
  assumes "tocEl p = Some as" and "list_all well_formed as"
  shows "\<exists>as'. onScroll_body p = (Normal, p\<lparr>tocEl := Some as'\<rparr>)
     \<and> length as' = length as
     \<and> (\<forall>k<length as. href (as' ! k) = href (as ! k)
           \<and> click_listener (as' ! k) = click_listener (as ! k)
           \<and> removeAll ''active'' (classList (as' ! k))
               = removeAll ''active'' (classList (as ! k)))
     \<and> (\<forall>k<length as. target_heading (document p) (as ! k) = None \<longrightarrow>
          (is_active (as' ! k) \<longrightarrow> is_active (as ! k)))
     \<and> (\<forall>k<length as. target_heading (document p) (as ! k) \<noteq> None \<longrightarrow>
          (is_active (as' ! k) \<longleftrightarrow>
             qualifies (document p) (innerHeight p) (as ! k)
             \<and> (\<forall>j. k < j \<and> j < length as \<longrightarrow>
                   \<not> qualifies (document p) (innerHeight p) (as ! j))))"
proof (cases "last_qualifying (document p) (innerHeight p) as 0 None")
  case None
  let ?as' = "map (visit (document p)) as"
  have "onScroll_body p = (Normal, p\<lparr>tocEl := Some ?as'\<rparr>)"
    using onScroll_body_normal [OF assms] None by simp
  moreover have "\<forall>k<length as. \<not> qualifies (document p) (innerHeight p) (as ! k)"
    using None by (simp add: last_qualifying_None)
  ultimately show ?thesis
    by (intro exI [of _ ?as'])
       (simp add: href_visit is_active_visit visit_keeps visit_missing)
next
  case (Some m)
  let ?vs = "map (visit (document p)) as"
  let ?as' = "?vs[m := (?vs ! m)\<lparr>classList := classList_add (classList (?vs ! m)) ''active''\<rparr>]"
  have m: "m < length as" "qualifies (document p) (innerHeight p) (as ! m)"
    "\<forall>j. m < j \<and> j < length as \<longrightarrow> \<not> qualifies (document p) (innerHeight p) (as ! j)"
    using Some by (simp_all add: last_qualifying_Some)
  have run: "onScroll_body p = (Normal, p\<lparr>tocEl := Some ?as'\<rparr>)"
    using onScroll_body_normal [OF assms] Some by simp
  have keeps: "\<forall>k<length as. href (?as' ! k) = href (as ! k)
           \<and> click_listener (?as' ! k) = click_listener (as ! k)
           \<and> removeAll ''active'' (classList (?as' ! k))
               = removeAll ''active'' (classList (as ! k))"
    using m(1) by (auto simp: nth_list_update href_visit visit_keeps removeAll_add)
  have miss: "is_active (?as' ! k) \<longrightarrow> is_active (as ! k)"
    if "k < length as" "target_heading (document p) (as ! k) = None" for k
  proof -
    from that(2) qualifies_target [OF m(2)] have "k \<noteq> m" by auto
    with that m(1) show ?thesis
      by (simp add: nth_list_update visit_missing)
  qed
  have act: "is_active (?as' ! k) \<longleftrightarrow> k = m"
    if "k < length as" "target_heading (document p) (as ! k) \<noteq> None" for k
    using that m(1) by (auto simp: nth_list_update is_active_add is_active_visit)
  have char: "k = m \<longleftrightarrow>
       qualifies (document p) (innerHeight p) (as ! k)
       \<and> (\<forall>j. k < j \<and> j < length as \<longrightarrow> \<not> qualifies (document p) (innerHeight p) (as ! j))"
    if "k < length as" for k
    using last_qualifying_Some [of "document p" "innerHeight p" as k] Some that by auto
  show ?thesis
    using run keeps miss act char by (intro exI [of _ ?as']) simp
qed

lemma example_targets:
  "target_heading example_document (example_anchor ''https://goproxy.io/docs/#h0'')
     = Some \<lparr>el_id = ''h0'', rect_top = 500\<rparr>"
  "target_heading example_document (example_anchor ''https://goproxy.io/docs/#h1'')
     = Some \<lparr>el_id = ''h1'', rect_top = 50\<rparr>"
  "target_heading example_document (example_anchor ''https://goproxy.io/docs/#h2'')
     = Some \<lparr>el_id = ''h2'', rect_top = - 10\<rparr>"
  "target_heading example_document (example_anchor ''https://goproxy.io/docs/#h3'')
     = Some \<lparr>el_id = ''h3'', rect_top = 300\<rparr>"
  "target_heading example_document (example_anchor ''https://goproxy.io/docs/#100%'') = None"
  "target_heading example_document
     \<lparr>href = ''https://goproxy.io/docs/#gone'', classList = [''active''],
      click_listener = False\<rparr> = None"
  by (simp_all add: target_heading_def example_anchor_def indexOf_def slice_def
        getElementById_def example_document_def)

lemma example_well_formed:
  "well_formed (example_anchor ''https://goproxy.io/docs/#h0'')"
  "well_formed (example_anchor ''https://goproxy.io/docs/#h1'')"
  "well_formed (example_anchor ''https://goproxy.io/docs/#h2'')"
  "well_formed (example_anchor ''https://goproxy.io/docs/#h3'')"
  "\<not> well_formed (example_anchor ''https://goproxy.io/docs/#100%'')"
  "well_formed \<lparr>href = ''https://goproxy.io/docs/#gone'', classList = [''active''],
      click_listener = False\<rparr>"
  by (simp_all add: well_formed_def example_anchor_def indexOf_def slice_def)

lemma example_qualifies:
  "\<not> qualifies example_document 600 (example_anchor ''https://goproxy.io/docs/#h0'')"
  "qualifies example_document 600 (example_anchor ''https://goproxy.io/docs/#h1'')"
  "qualifies example_document 600 (example_anchor ''https://goproxy.io/docs/#h2'')"
  "\<not> qualifies example_document 600 (example_anchor ''https://goproxy.io/docs/#h3'')"
  by (simp_all add: qualifies_def example_targets)

lemma example_toc_fields:
  "tocEl (example_toc hs) = Some (map example_anchor hs)"
  "document (example_toc hs) = example_document"
  "innerHeight (example_toc hs) = 600"
  by (simp_all add: example_toc_def)

lemma example_missing:
  "target_heading example_document (example_anchor ''https://goproxy.io/docs/#gone'') = None"
  "target_heading example_document (example_anchor ''https://goproxy.io/docs/#gone2'') = None"
  "well_formed (example_anchor ''https://goproxy.io/docs/#gone'')"
  "well_formed (example_anchor ''https://goproxy.io/docs/#gone2'')"
  "\<not> is_active (example_anchor h)"
  by (simp_all add: target_heading_def well_formed_def example_anchor_def indexOf_def slice_def
        getElementById_def example_document_def is_active_def)

theorem onScroll_body_marks_last_witness:
  "tocEl example_page = Some (map example_anchor
      [''https://goproxy.io/docs/#h0'', ''https://goproxy.io/docs/#h1'',
       ''https://goproxy.io/docs/#h2'', ''https://goproxy.io/docs/#h3''])
   \<and> list_all well_formed (map example_anchor
      [''https://goproxy.io/docs/#h0'', ''https://goproxy.io/docs/#h1'',
       ''https://goproxy.io/docs/#h2'', ''https://goproxy.io/docs/#h3''])
   \<and> map rect_top (document example_page) = [500, 50, - 10, 300]
   \<and> innerHeight example_page / 4 = 150
   \<and> (\<exists>as'. onScroll_body example_page = (Normal, example_page\<lparr>tocEl := Some as'\<rparr>)
         \<and> map is_active as' = [False, False, True, False])
   \<and> tocEl skipping_page = Some (map example_anchor
      [''https://goproxy.io/docs/#gone'', ''https://goproxy.io/docs/#h0'',
       ''https://goproxy.io/docs/#gone2'', ''https://goproxy.io/docs/#h2''])
   \<and> list_all well_formed (map example_anchor
      [''https://goproxy.io/docs/#gone'', ''https://goproxy.io/docs/#h0'',
       ''https://goproxy.io/docs/#gone2'', ''https://goproxy.io/docs/#h2''])
   \<and> (\<exists>bs'. onScroll_body skipping_page = (Normal, skipping_page\<lparr>tocEl := Some bs'\<rparr>)
         \<and> map is_active bs' = [False, False, False, True])"
proof -
  define as where "as = map example_anchor
      [''https://goproxy.io/docs/#h0'', ''https://goproxy.io/docs/#h1'',
       ''https://goproxy.io/docs/#h2'', ''https://goproxy.io/docs/#h3'']"
  have n: "length as = 4"
    "as ! 0 = example_anchor ''https://goproxy.io/docs/#h0''"
    "as ! 1 = example_anchor ''https://goproxy.io/docs/#h1''"
    "as ! 2 = example_anchor ''https://goproxy.io/docs/#h2''"
    "as ! 3 = example_anchor ''https://goproxy.io/docs/#h3''"
    by (simp_all add: as_def)
  have t: "tocEl example_page = Some as"
    by (simp add: example_page_def example_toc_fields as_def)
  have w: "list_all well_formed as"
    by (simp add: example_well_formed as_def)
  have d: "document example_page = example_document" "innerHeight example_page = 600"
    by (simp_all add: example_page_def example_toc_fields)
  from onScroll_body_marks_last [OF t w]
  obtain as' where run: "onScroll_body example_page = (Normal, example_page\<lparr>tocEl := Some as'\<rparr>)"
    and len: "length as' = length as"
    and act0: "\<forall>k<length as. target_heading (document example_page) (as ! k) \<noteq> None \<longrightarrow>
          (is_active (as' ! k) \<longleftrightarrow>
             qualifies (document example_page) (innerHeight example_page) (as ! k)
             \<and> (\<forall>j. k < j \<and> j < length as \<longrightarrow>
                  \<not> qualifies (document example_page) (innerHeight example_page) (as ! j)))"
    by blast
  have act: "is_active (as' ! k) \<longleftrightarrow>
             qualifies example_document 600 (as ! k)
             \<and> (\<forall>j. k < j \<and> j < 4 \<longrightarrow> \<not> qualifies example_document 600 (as ! j))"
    if "k < 4" "target_heading example_document (as ! k) \<noteq> None" for k
    using act0 [rule_format, of k] that unfolding d n(1) by blast
  have j3: "j = 3" if "2 < j" "j < 4" for j :: nat
    using that by arith
  have tg: "target_heading example_document (as ! 0) \<noteq> None"
    "target_heading example_document (as ! 1) \<noteq> None"
    "target_heading example_document (as ! 2) \<noteq> None"
    "target_heading example_document (as ! 3) \<noteq> None"
    unfolding n by (simp_all add: example_targets)
  have q: "\<not> qualifies example_document 600 (as ! 0)"
    "qualifies example_document 600 (as ! 1)"
    "qualifies example_document 600 (as ! 2)"
    "\<not> qualifies example_document 600 (as ! 3)"
    unfolding n by (simp_all add: example_qualifies)
  have a0: "\<not> is_active (as' ! 0)"
    using act [OF _ tg(1)] q(1) by simp
  have a1: "\<not> is_active (as' ! 1)"
  proof -
    have "\<not> (\<forall>j. 1 < j \<and> j < 4 \<longrightarrow> \<not> qualifies example_document 600 (as ! j))"
      using q(3) by (intro notI, drule_tac x = 2 in spec) simp
    moreover have "(1::nat) < 4" by simp
    ultimately show ?thesis
      using act [OF _ tg(2)] by blast
  qed
  have a2: "is_active (as' ! 2)"
  proof -
    have "\<forall>j. 2 < j \<and> j < 4 \<longrightarrow> \<not> qualifies example_document 600 (as ! j)"
      using j3 q(4) by blast
    moreover have "(2::nat) < 4" by simp
    ultimately show ?thesis
      using act [OF _ tg(3)] q(3) by blast
  qed
  have a3: "\<not> is_active (as' ! 3)"
    using act [OF _ tg(4)] q(4) by simp
  have "map is_active as' = [False, False, True, False]"
    using len a0 a1 a2 a3 unfolding n(1)
    by (simp add: list_eq_iff_nth_eq eval_nat_numeral All_less_Suc)
  with run have first: "\<exists>as'. onScroll_body example_page = (Normal, example_page\<lparr>tocEl := Some as'\<rparr>)
         \<and> map is_active as' = [False, False, True, False]"
    by (intro exI [of _ as']) simp

  define bs where "bs = map example_anchor
      [''https://goproxy.io/docs/#gone'', ''https://goproxy.io/docs/#h0'',
       ''https://goproxy.io/docs/#gone2'', ''https://goproxy.io/docs/#h2'']"
  have m: "length bs = 4"
    "bs ! 0 = example_anchor ''https://goproxy.io/docs/#gone''"
    "bs ! 1 = example_anchor ''https://goproxy.io/docs/#h0''"
    "bs ! 2 = example_anchor ''https://goproxy.io/docs/#gone2''"
    "bs ! 3 = example_anchor ''https://goproxy.io/docs/#h2''"
    by (simp_all add: bs_def)
  have t2: "tocEl skipping_page = Some bs"
    by (simp add: skipping_page_def example_toc_fields bs_def)
  have w2: "list_all well_formed bs"
    by (simp add: example_well_formed example_missing bs_def)
  have d2: "document skipping_page = example_document" "innerHeight skipping_page = 600"
    by (simp_all add: skipping_page_def example_toc_fields)
  from onScroll_body_marks_last [OF t2 w2]
  obtain bs' where run2: "onScroll_body skipping_page = (Normal, skipping_page\<lparr>tocEl := Some bs'\<rparr>)"
    and len2: "length bs' = length bs"
    and miss0: "\<forall>k<length bs. target_heading (document skipping_page) (bs ! k) = None \<longrightarrow>
          (is_active (bs' ! k) \<longrightarrow> is_active (bs ! k))"
    and act2: "\<forall>k<length bs. target_heading (document skipping_page) (bs ! k) \<noteq> None \<longrightarrow>
          (is_active (bs' ! k) \<longleftrightarrow>
             qualifies (document skipping_page) (innerHeight skipping_page) (bs ! k)
             \<and> (\<forall>j. k < j \<and> j < length bs \<longrightarrow>
                  \<not> qualifies (document skipping_page) (innerHeight skipping_page) (bs ! j)))"
    by blast
  have miss: "\<not> is_active (bs' ! k)"
    if "k < 4" "target_heading example_document (bs ! k) = None" "\<not> is_active (bs ! k)" for k
    using miss0 [rule_format, of k] that unfolding d2 m(1) by blast
  have act3: "is_active (bs' ! k) \<longleftrightarrow>
             qualifies example_document 600 (bs ! k)
             \<and> (\<forall>j. k < j \<and> j < 4 \<longrightarrow> \<not> qualifies example_document 600 (bs ! j))"
    if "k < 4" "target_heading example_document (bs ! k) \<noteq> None" for k
    using act2 [rule_format, of k] that unfolding d2 m(1) by blast
  have b0: "\<not> is_active (bs' ! 0)"
    using miss [of 0] unfolding m by (simp add: example_missing)
  have b2: "\<not> is_active (bs' ! 2)"
    using miss [of 2] unfolding m by (simp add: example_missing)
  have tg1: "target_heading example_document (bs ! 1) \<noteq> None"
    and tg3: "target_heading example_document (bs ! 3) \<noteq> None"
    and q1: "\<not> qualifies example_document 600 (bs ! 1)"
    and q3: "qualifies example_document 600 (bs ! 3)"
    unfolding m by (simp_all add: example_targets example_qualifies)
  have b1: "\<not> is_active (bs' ! 1)"
    using act3 [OF _ tg1] q1 by simp
  have b3: "is_active (bs' ! 3)"
  proof -
    have "\<forall>j. 3 < j \<and> j < 4 \<longrightarrow> \<not> qualifies example_document 600 (bs ! j)"
      by arith
    moreover have "(3::nat) < 4" by simp
    ultimately show ?thesis
      using act3 [OF _ tg3] q3 by blast
  qed
  have "map is_active bs' = [False, False, False, True]"
    using len2 b0 b1 b2 b3 unfolding m(1)
    by (simp add: list_eq_iff_nth_eq eval_nat_numeral All_less_Suc)
  with run2 have second: "\<exists>bs'. onScroll_body skipping_page = (Normal, skipping_page\<lparr>tocEl := Some
      bs'\<rparr>)
         \<and> map is_active bs' = [False, False, False, True]"
    by (intro exI [of _ bs']) simp
  have "map rect_top (document example_page) = [500, 50, - 10, 300]"
    "innerHeight example_page / 4 = 150"
    by (simp_all add: d example_document_def)
  then show ?thesis
    using first second t w t2 w2 unfolding as_def bs_def by simp
qed


lemma forEach_malformed_example:
  "forEach_anchors example_document 600
     (map example_anchor [''https://goproxy.io/docs/#h2'', ''https://goproxy.io/docs/#100%'',
                  ''https://goproxy.io/docs/#h1'']) 0 None
   = (Throw URIError,
      map example_anchor [''https://goproxy.io/docs/#h2'', ''https://goproxy.io/docs/#100%'',
                  ''https://goproxy.io/docs/#h1''], Some 0)"
proof -
  have v: "visit example_document (example_anchor ''https://goproxy.io/docs/#h2'')
            = example_anchor ''https://goproxy.io/docs/#h2''"
    by (simp add: visit_def example_targets) (simp add: example_anchor_def classList_remove_def)
  show ?thesis
    using forEach_throw [of "[example_anchor ''https://goproxy.io/docs/#h2'']"
        "example_anchor ''https://goproxy.io/docs/#100%''" example_document 600
        "[example_anchor ''https://goproxy.io/docs/#h1'']" 0 None]
    by (simp add: example_well_formed example_qualifies v)
qed

text \<open>
  C1, as stated, fails on a TOC with a malformed fragment. The anchors of \<open>h2\<close> and
  \<open>h1\<close> qualify, and the anchor of \<open>h1\<close> is the last one that does; between them stands an
  anchor with the fragment \<open>100%\<close>. The handler throws at that anchor and marks no
  anchor: the page is left as it was, with the anchor of \<open>h1\<close> unmarked.
\<close>

theorem onScroll_body_marks_last_counterexample:
  "qualifies (document malformed_page) (innerHeight malformed_page)
      (example_anchor ''https://goproxy.io/docs/#h1'')
   \<and> tocEl malformed_page = Some
        [example_anchor ''https://goproxy.io/docs/#h2'',
         example_anchor ''https://goproxy.io/docs/#100%'',
         example_anchor ''https://goproxy.io/docs/#h1'']
   \<and> onScroll_body malformed_page = (Throw URIError, malformed_page)
   \<and> is_active (example_anchor ''https://goproxy.io/docs/#h1'') = False"
proof -
  have f: "tocEl malformed_page = Some (map example_anchor
       [''https://goproxy.io/docs/#h2'', ''https://goproxy.io/docs/#100%'',
        ''https://goproxy.io/docs/#h1''])"
    "document malformed_page = example_document" "innerHeight malformed_page = 600"
    by (simp_all add: malformed_page_def example_toc_fields)
  have r: "onScroll_body malformed_page = (Throw URIError, malformed_page)"
    unfolding onScroll_body_def f option.case forEach_malformed_example
    by (simp add: malformed_page_def example_toc_def)
  show ?thesis
    using r by (simp add: f example_qualifies) (simp add: is_active_def example_anchor_def)
qed

text \<open>
  C2 does not hold of the handler. An anchor whose target is not found leaves the
  iteration before \<open>classList.remove\<close> is reached, so a marker it bears is not cleared.
  On a TOC whose first anchor bears the marker and points to a heading that is gone, and
  whose second anchor qualifies, the handler returns with both anchors marked.
\<close>

theorem onScroll_body_stale_marker:
  "onScroll_body stale_page =
     (Normal, stale_page\<lparr>tocEl := Some
        [\<lparr>href = ''https://goproxy.io/docs/#gone'', classList = [''active''],
          click_listener = False\<rparr>,
         \<lparr>href = ''https://goproxy.io/docs/#h2'', classList = [''active''],
          click_listener = False\<rparr>]\<rparr>)
   \<and> map is_active
        [\<lparr>href = ''https://goproxy.io/docs/#gone'', classList = [''active''],
          click_listener = False\<rparr>,
         \<lparr>href = ''https://goproxy.io/docs/#h2'', classList = [''active''],
          click_listener = False\<rparr>] = [True, True]"
proof -
  let ?g = "\<lparr>href = ''https://goproxy.io/docs/#gone'', classList = [''active''],
          click_listener = False\<rparr>"
  let ?h = "example_anchor ''https://goproxy.io/docs/#h2''"
  have f: "tocEl stale_page = Some [?g, ?h]"
    "document stale_page = example_document" "innerHeight stale_page = 600"
    by (simp_all add: stale_page_def example_toc_def)
  have w: "list_all well_formed [?g, ?h]"
    by (simp add: example_well_formed)
  have v: "visit example_document ?g = ?g" "visit example_document ?h = ?h"
    by (simp_all add: visit_def example_targets)
       (simp add: example_anchor_def classList_remove_def)
  have l: "last_qualifying example_document 600 [?g, ?h] 0 None = Some 1"
    by (simp add: example_qualifies qualifies_def example_targets)
  have "onScroll_body stale_page =
     (Normal, stale_page\<lparr>tocEl := Some
        [?g, ?h\<lparr>classList := classList_add (classList ?h) ''active''\<rparr>]\<rparr>)"
    using onScroll_body_normal [OF f(1) w] unfolding f l by (simp add: v)
  then show ?thesis
    by (simp add: example_anchor_def classList_add_def is_active_def)
qed

subsection \<open>Errors in the handlers\<close>

lemma forEach_listeners:
  "forEach_anchors doc h as i act = (c, as', act') \<Longrightarrow>
     map click_listener as' = map click_listener as \<and> map href as' = map href as"
proof (induction as arbitrary: i act c as' act')
  case Nil
  then show ?case by simp
next
  case (Cons a as)
  show ?case
  proof (cases "decodeURIComponent (hash_of (href a))")
    case (Inl err)
    with Cons.prems show ?thesis
      by (simp del: decodeURIComponent.simps)
  next
    case (Inr ident)
    show ?thesis
    proof (cases "getElementById doc ident")
      case None
      obtain c1 as1 act1 where r: "forEach_anchors doc h as (Suc i) act = (c1, as1, act1)"
        by (cases "forEach_anchors doc h as (Suc i) act") auto
      from Cons.prems Inr None r have "as' = a # as1"
        by (simp del: decodeURIComponent.simps)
      with Cons.IH [OF r] show ?thesis by simp
    next
      case (Some el)
      let ?act = "if rect_top el < h / 4 then Some i else act"
      obtain c1 as1 act1 where r: "forEach_anchors doc h as (Suc i) ?act = (c1, as1, act1)"
        by (cases "forEach_anchors doc h as (Suc i) ?act") auto
      from Cons.prems Inr Some r
      have "as' = a\<lparr>classList := classList_remove (classList a) ''active''\<rparr> # as1"
        by (simp add: Let_def del: decodeURIComponent.simps)
      with Cons.IH [OF r] show ?thesis by simp
    qed
  qed
qed

lemma mark_listeners:
  "map click_listener (as[k := (as ! k)\<lparr>classList := cl\<rparr>]) = map click_listener as"
  by (cases "k < length as") (auto simp: list_eq_iff_nth_eq nth_list_update)

lemma onScroll_body_listeners:
  "scroll_listener (snd (onScroll_body p)) = scroll_listener p
   \<and> throttle_pending (snd (onScroll_body p)) = throttle_pending p
   \<and> map_option (map click_listener) (tocEl (snd (onScroll_body p)))
       = map_option (map click_listener) (tocEl p)"
proof (cases "tocEl p")
  case None
  then show ?thesis by (simp add: onScroll_body_def)
next
  case (Some as)
  obtain c as' act' where r: "forEach_anchors (document p) (innerHeight p) as 0 None = (c, as',
      act')"
    by (cases "forEach_anchors (document p) (innerHeight p) as 0 None") auto
  from forEach_listeners [OF r] have l: "map click_listener as' = map click_listener as"
    by simp
  show ?thesis
    using Some r l
    by (cases c; cases act') (simp_all add: onScroll_body_def mark_listeners)
qed

lemma onClick_listeners:
  "tocEl (snd (snd (onClick fl loc e p))) = tocEl p
   \<and> scroll_listener (snd (snd (onClick fl loc e p))) = scroll_listener p"
  by (simp add: onClick_def Let_def split: sum.split option.split)

text \<open>
  C5, amended. No exception leaves the scroll handler, or the click handler for a click
  that lands on the anchor itself, when \<open>decodeURIComponent\<close> accepts the fragment of every
  anchor concerned, whether the targets exist or not. A fragment that is not a
  well-formed escape sequence makes the handler throw \<open>URIError\<close>: the click handler has
  then only prevented the default, and the scroll handler stops at that anchor, leaving
  it and the anchors after it unvisited and adding no marker. Returning or throwing,
  neither handler removes a registered handler, so later clicks and scroll events are
  handled as before.
\<close>

theorem handlers_throw_on_malformed_only:
  "(\<forall>a. target e = AnchorNode a \<and> well_formed a \<longrightarrow> fst (onClick fl loc e p) = Normal)
   \<and> (\<forall>a. target e = AnchorNode a \<and> \<not> well_formed a \<longrightarrow>
         onClick fl loc e p = (Throw URIError, e\<lparr>defaultPrevented := True\<rparr>, p))
   \<and> (tocEl p = None \<longrightarrow> onScroll_body p = (Normal, p))
   \<and> (\<forall>as. tocEl p = Some as \<and> list_all well_formed as \<longrightarrow> fst (onScroll_body p) = Normal)
   \<and> (\<forall>as1 a as2. tocEl p = Some (as1 @ a # as2) \<and> list_all well_formed as1
          \<and> \<not> well_formed a \<longrightarrow>
         onScroll_body p =
           (Throw URIError, p\<lparr>tocEl := Some (map (visit (document p)) as1 @ a # as2)\<rparr>))
   \<and> tocEl (snd (snd (onClick fl loc e p))) = tocEl p
   \<and> scroll_listener (snd (snd (onClick fl loc e p))) = scroll_listener p
   \<and> scroll_listener (snd (onScroll_body p)) = scroll_listener p
   \<and> map_option (map click_listener) (tocEl (snd (onScroll_body p)))
       = map_option (map click_listener) (tocEl p)"
proof -
  have c1: "\<forall>a. target e = AnchorNode a \<and> well_formed a \<longrightarrow> fst (onClick fl loc e p) = Normal"
    by (auto simp: well_formed_cases onClick_def Let_def split: option.split
          simp del: decodeURIComponent.simps)
  have c2: "\<forall>a. target e = AnchorNode a \<and> \<not> well_formed a \<longrightarrow>
         onClick fl loc e p = (Throw URIError, e\<lparr>defaultPrevented := True\<rparr>, p)"
    by (simp add: not_well_formed onClick_def Let_def del: decodeURIComponent.simps)
  have s0: "tocEl p = None \<longrightarrow> onScroll_body p = (Normal, p)"
    by (simp add: onScroll_body_def)
  have s1: "\<forall>as. tocEl p = Some as \<and> list_all well_formed as \<longrightarrow> fst (onScroll_body p) = Normal"
    using onScroll_body_normal by simp
  have s2: "\<forall>as1 a as2. tocEl p = Some (as1 @ a # as2) \<and> list_all well_formed as1
          \<and> \<not> well_formed a \<longrightarrow>
         onScroll_body p =
           (Throw URIError, p\<lparr>tocEl := Some (map (visit (document p)) as1 @ a # as2)\<rparr>)"
    using onScroll_body_throw by blast
  show ?thesis
    using c1 c2 s0 s1 s2 onClick_listeners [of fl loc e p] onScroll_body_listeners [of p]
    by blast
qed

text \<open>
  C5, as stated, fails. A click that lands on an anchor with the fragment \<open>100%\<close> throws
  \<open>URIError\<close>. In the scroll handler the same fragment on the first anchor ends the
  pass: the second anchor, whose heading \<open>h3\<close> exists and does not qualify, is never
  visited and keeps the marker the pass would have removed.
\<close>

theorem handlers_throw_on_malformed_only_counterexample:
  "target (click_on ''https://goproxy.io/docs/#100%'')
     = AnchorNode (example_anchor ''https://goproxy.io/docs/#100%'')
   \<and> onClick exact example_location (click_on ''https://goproxy.io/docs/#100%'') example_page
     = (Throw URIError,
        (click_on ''https://goproxy.io/docs/#100%'')\<lparr>defaultPrevented := True\<rparr>, example_page)
   \<and> target_heading (document blocked_page)
        \<lparr>href = ''https://goproxy.io/docs/#h3'', classList = [''active''],
         click_listener = False\<rparr> = Some \<lparr>el_id = ''h3'', rect_top = 300\<rparr>
   \<and> onScroll_body blocked_page = (Throw URIError, blocked_page)
   \<and> tocEl blocked_page = Some
        [example_anchor ''https://goproxy.io/docs/#100%'',
         \<lparr>href = ''https://goproxy.io/docs/#h3'', classList = [''active''],
          click_listener = False\<rparr>]"
proof -
  let ?b = "\<lparr>href = ''https://goproxy.io/docs/#h3'', classList = [''active''],
          click_listener = False\<rparr>"
  have m: "decodeURIComponent (hash_of ''https://goproxy.io/docs/#100%'') = Inl URIError"
    using example_well_formed(5) by (simp only: not_well_formed click_on_fields)
  have c: "onClick exact example_location (click_on ''https://goproxy.io/docs/#100%'') example_page
     = (Throw URIError,
        (click_on ''https://goproxy.io/docs/#100%'')\<lparr>defaultPrevented := True\<rparr>, example_page)"
    using m by (simp add: onClick_def Let_def click_on_fields del: decodeURIComponent.simps)
  have f: "tocEl blocked_page = Some ([] @ example_anchor ''https://goproxy.io/docs/#100%'' # [?b])"
    "document blocked_page = example_document"
    by (simp_all add: blocked_page_def example_toc_def)
  have t: "target_heading example_document ?b = Some \<lparr>el_id = ''h3'', rect_top = 300\<rparr>"
    by (simp add: target_heading_def indexOf_def slice_def getElementById_def
          example_document_def)
  have s: "onScroll_body blocked_page = (Throw URIError, blocked_page)"
    using onScroll_body_throw [OF f(1) _ example_well_formed(5)]
    by (simp add: blocked_page_def example_toc_def)
  show ?thesis
    using c s t f by (simp add: click_on_fields)
qed

theorem handlers_throw_on_malformed_only_witness:
  "target (click_on ''https://goproxy.io/docs/#h1'')
     = AnchorNode (example_anchor ''https://goproxy.io/docs/#h1'')
   \<and> well_formed (example_anchor ''https://goproxy.io/docs/#h1'')
   \<and> fst (onClick exact example_location (click_on ''https://goproxy.io/docs/#h1'') example_page)
       = Normal
   \<and> fst (onScroll_body example_page) = Normal
   \<and> target (click_on ''https://goproxy.io/docs/#100%'')
     = AnchorNode (example_anchor ''https://goproxy.io/docs/#100%'')
   \<and> \<not> well_formed (example_anchor ''https://goproxy.io/docs/#100%'')
   \<and> onClick exact example_location (click_on ''https://goproxy.io/docs/#100%'') malformed_page
       = (Throw URIError,
          (click_on ''https://goproxy.io/docs/#100%'')\<lparr>defaultPrevented := True\<rparr>,
          malformed_page)
   \<and> onScroll_body malformed_page
       = (Throw URIError, malformed_page\<lparr>tocEl := Some
            (map (visit (document malformed_page)) [example_anchor ''https://goproxy.io/docs/#h2'']
             @ example_anchor ''https://goproxy.io/docs/#100%''
             # [example_anchor ''https://goproxy.io/docs/#h1''])\<rparr>)"
proof -
  have w: "well_formed (example_anchor ''https://goproxy.io/docs/#h1'')"
    and n: "\<not> well_formed (example_anchor ''https://goproxy.io/docs/#100%'')"
    by (simp_all add: example_well_formed)
  note tw = click_on_fields(1) [of "''https://goproxy.io/docs/#h1''"]
  note tn = click_on_fields(1) [of "''https://goproxy.io/docs/#100%''"]
  have t: "tocEl example_page = Some (map example_anchor
      [''https://goproxy.io/docs/#h0'', ''https://goproxy.io/docs/#h1'',
       ''https://goproxy.io/docs/#h2'', ''https://goproxy.io/docs/#h3''])"
    by (simp add: example_page_def example_toc_fields)
  have l: "list_all well_formed (map example_anchor
      [''https://goproxy.io/docs/#h0'', ''https://goproxy.io/docs/#h1'',
       ''https://goproxy.io/docs/#h2'', ''https://goproxy.io/docs/#h3''])"
    by (simp add: example_well_formed)
  have m: "tocEl malformed_page = Some ([example_anchor ''https://goproxy.io/docs/#h2'']
             @ example_anchor ''https://goproxy.io/docs/#100%''
             # [example_anchor ''https://goproxy.io/docs/#h1''])"
    by (simp add: malformed_page_def example_toc_fields)
  have l1: "list_all well_formed [example_anchor ''https://goproxy.io/docs/#h2'']"
    and n1: "\<not> well_formed (example_anchor ''https://goproxy.io/docs/#100%'')"
    by (simp_all add: example_well_formed)
  note a = handlers_throw_on_malformed_only
      [of "click_on ''https://goproxy.io/docs/#h1''" exact example_location example_page]
  note b = handlers_throw_on_malformed_only
      [of "click_on ''https://goproxy.io/docs/#100%''" exact example_location malformed_page]
  have 1: "fst (onClick exact example_location (click_on ''https://goproxy.io/docs/#h1'')
        example_page) = Normal"
    using a tw w by blast
  have 2: "fst (onScroll_body example_page) = Normal"
    using a t l by blast
  have 3: "onClick exact example_location (click_on ''https://goproxy.io/docs/#100%'')
        malformed_page
       = (Throw URIError,
          (click_on ''https://goproxy.io/docs/#100%'')\<lparr>defaultPrevented := True\<rparr>,
          malformed_page)"
    using b tn n by blast
  have 4: "onScroll_body malformed_page
       = (Throw URIError, malformed_page\<lparr>tocEl := Some
            (map (visit (document malformed_page)) [example_anchor ''https://goproxy.io/docs/#h2'']
             @ example_anchor ''https://goproxy.io/docs/#100%''
             # [example_anchor ''https://goproxy.io/docs/#h1''])\<rparr>)"
    using b m l1 n1 by blast
  show ?thesis
    using tw tn w n 1 2 3 4 by (intro conjI)
qed

subsection \<open>The clean-up of the effect\<close>

lemma effect_example_page:
  "effect example_page =
     (Normal,
      \<lparr>tocEl = Some
         [\<lparr>href = ''https://goproxy.io/docs/#h0'', classList = [], click_listener = True\<rparr>,
          \<lparr>href = ''https://goproxy.io/docs/#h1'', classList = [], click_listener = True\<rparr>,
          \<lparr>href = ''https://goproxy.io/docs/#h2'', classList = [''active''],
            click_listener = True\<rparr>,
          \<lparr>href = ''https://goproxy.io/docs/#h3'', classList = [], click_listener = True\<rparr>],
       document = example_document, innerHeight = 600, scrollY = 1000,
       history_calls = [], scrollTo_calls = [], scroll_listener = True,
       throttle_pending = False\<rparr>)"
  by (simp add: effect_def example_page_def example_toc_def example_anchor_def Let_def
        onScroll_def onScroll_body_def decode_example_hashes getElementById_def
        example_document_def classList_remove_def classList_add_def
        del: decodeURIComponent.simps)

lemma detached_page_eq:
  "detached_page =
      \<lparr>tocEl = Some
         [\<lparr>href = ''https://goproxy.io/docs/#h0'', classList = [], click_listener = False\<rparr>,
          \<lparr>href = ''https://goproxy.io/docs/#h1'', classList = [], click_listener = False\<rparr>,
          \<lparr>href = ''https://goproxy.io/docs/#h2'', classList = [''active''],
            click_listener = False\<rparr>,
          \<lparr>href = ''https://goproxy.io/docs/#h3'', classList = [], click_listener = False\<rparr>],
       document = scrolled_document, innerHeight = 600, scrollY = 1400,
       history_calls = [], scrollTo_calls = [], scroll_listener = False,
       throttle_pending = True\<rparr>"
  by (simp add: detached_page_def effect_example_page dispatch_scroll_def onScroll_def
        cleanup_def Let_def)

lemma timer_fire_detached_page:
  "timer_fire detached_page =
     (Normal,
      \<lparr>tocEl = Some
         [\<lparr>href = ''https://goproxy.io/docs/#h0'', classList = [], click_listener = False\<rparr>,
          \<lparr>href = ''https://goproxy.io/docs/#h1'', classList = [], click_listener = False\<rparr>,
          \<lparr>href = ''https://goproxy.io/docs/#h2'', classList = [], click_listener = False\<rparr>,
          \<lparr>href = ''https://goproxy.io/docs/#h3'', classList = [''active''],
            click_listener = False\<rparr>],
       document = scrolled_document, innerHeight = 600, scrollY = 1400,
       history_calls = [], scrollTo_calls = [], scroll_listener = False,
       throttle_pending = False\<rparr>)"
  unfolding detached_page_eq
  by (simp add: timer_fire_def Let_def
        onScroll_body_def decode_example_hashes getElementById_def
        scrolled_document_def classList_remove_def classList_add_def
        del: decodeURIComponent.simps)

text \<open>
  C7, as stated, fails: the clean-up removes the handlers but leaves the timer of the
  throttle. After the effect, a scroll within the throttle window and the clean-up, no
  handler is registered and the timer is still pending; when it expires the handler
  runs and moves the marker from the third anchor to the fourth.
\<close>

theorem cleanup_removes_listeners_counterexample:
  "scroll_listener detached_page = False
   \<and> throttle_pending detached_page = True
   \<and> map_option (map click_listener) (tocEl detached_page)
       = Some [False, False, False, False]
   \<and> map_option (map is_active) (tocEl detached_page) = Some [False, False, True, False]
   \<and> fst (timer_fire detached_page) = Normal
   \<and> map_option (map is_active) (tocEl (snd (timer_fire detached_page)))
       = Some [False, False, False, True]"
  unfolding timer_fire_detached_page
  by (simp add: detached_page_eq is_active_def)

text \<open>
  C7, amended. The clean-up removes the scroll handler from the window and the click
  handler from every anchor, those the effect registered included. A scroll event or a
  click (on an anchor or on an element inside it) dispatched afterwards runs no handler: the page
      is not changed and nothing is
  thrown. The clean-up does not cancel the throttle: a timer pending before it is still
  pending after it. When that timer expires after the TOC reference has become null, the
  handler returns at once, changing nothing and throwing nothing.
\<close>

theorem cleanup_removes_listeners:
  "scroll_listener (cleanup p) = False
   \<and> (\<forall>as. tocEl (cleanup p) = Some as \<longrightarrow> (\<forall>a\<in>set as. \<not> click_listener a))
   \<and> (\<forall>c q as. effect p = (c, q) \<and> tocEl p = Some as \<longrightarrow>
         scroll_listener q
         \<and> map_option (map click_listener) (tocEl q) = Some (replicate (length as) True)
         \<and> map_option (map click_listener) (tocEl (cleanup q))
             = Some (replicate (length as) False))
   \<and> dispatch_scroll window_over (cleanup p) = (Normal, cleanup p)
   \<and> (\<forall>as a inside. tocEl (cleanup p) = Some as \<and> a \<in> set as \<longrightarrow>
         dispatch_click fl loc a inside (cleanup p)
           = (Normal, click_event a inside, cleanup p))
   \<and> throttle_pending (cleanup p) = throttle_pending p
   \<and> (tocEl p = None \<longrightarrow>
         timer_fire (cleanup p) = (Normal, (cleanup p)\<lparr>throttle_pending := False\<rparr>))"
proof -
  have 1: "scroll_listener (cleanup p) = False"
    by (simp add: cleanup_def Let_def)
  have 2: "\<forall>as. tocEl (cleanup p) = Some as \<longrightarrow> (\<forall>a\<in>set as. \<not> click_listener a)"
    by (auto simp: cleanup_def Let_def)
  have 3: "scroll_listener q
         \<and> map_option (map click_listener) (tocEl q) = Some (replicate (length as) True)
         \<and> map_option (map click_listener) (tocEl (cleanup q))
             = Some (replicate (length as) False)"
    if e: "effect p = (c, q)" and t: "tocEl p = Some as" for c q as
  proof -
    let ?p3 = "p\<lparr>tocEl := Some (map (\<lambda>a. a\<lparr>click_listener := True\<rparr>) as),
                  throttle_pending := False, scroll_listener := True\<rparr>"
    have q: "q = snd (onScroll_body ?p3)"
      using e t by (simp add: effect_def Let_def onScroll_def)
    have l: "map_option (map click_listener) (tocEl q) = Some (replicate (length as) True)"
      unfolding q using onScroll_body_listeners [of ?p3]
      by (simp add: o_def map_replicate_const)
    have s: "scroll_listener q"
      unfolding q using onScroll_body_listeners [of ?p3] by simp
    from l obtain bs where b: "tocEl q = Some bs" "length bs = length as"
      by (cases "tocEl q") (auto dest: arg_cong [where f = length])
    have "map_option (map click_listener) (tocEl (cleanup q))
             = Some (replicate (length as) False)"
      using b by (simp add: cleanup_def Let_def o_def map_replicate_const)
    with l s show ?thesis by simp
  qed
  have 4: "dispatch_scroll window_over (cleanup p) = (Normal, cleanup p)"
    by (simp add: dispatch_scroll_def 1)
  have 5: "\<forall>as a inside. tocEl (cleanup p) = Some as \<and> a \<in> set as \<longrightarrow>
         dispatch_click fl loc a inside (cleanup p)
           = (Normal, click_event a inside, cleanup p)"
    using 2 by (simp add: dispatch_click_def Let_def)
  have 6: "throttle_pending (cleanup p) = throttle_pending p"
    by (simp add: cleanup_def Let_def)
  have 7: "tocEl p = None \<longrightarrow>
         timer_fire (cleanup p) = (Normal, (cleanup p)\<lparr>throttle_pending := False\<rparr>)"
    by (simp add: timer_fire_def onScroll_body_def cleanup_def Let_def)
  show ?thesis
    using 1 2 3 4 5 6 7 by blast
qed

theorem cleanup_removes_listeners_witness:
  "tocEl example_page = Some (map example_anchor
      [''https://goproxy.io/docs/#h0'', ''https://goproxy.io/docs/#h1'',
       ''https://goproxy.io/docs/#h2'', ''https://goproxy.io/docs/#h3''])
   \<and> scroll_listener (snd (effect example_page))
   \<and> map_option (map click_listener) (tocEl (snd (effect example_page)))
       = Some [True, True, True, True]
   \<and> map_option (map click_listener) (tocEl (cleanup (snd (effect example_page))))
       = Some [False, False, False, False]
   \<and> scroll_listener (cleanup (snd (effect example_page))) = False
   \<and> dispatch_scroll True (cleanup (snd (effect example_page)))
       = (Normal, cleanup (snd (effect example_page)))
   \<and> tocEl (cleanup detached_page) = Some
        [example_anchor ''https://goproxy.io/docs/#h0'',
         example_anchor ''https://goproxy.io/docs/#h1'',
         (example_anchor ''https://goproxy.io/docs/#h2'')\<lparr>classList := [''active'']\<rparr>,
         example_anchor ''https://goproxy.io/docs/#h3'']
   \<and> dispatch_click exact example_location
         ((example_anchor ''https://goproxy.io/docs/#h2'')\<lparr>classList := [''active'']\<rparr>)
         False (cleanup detached_page)
       = (Normal,
          click_event
            ((example_anchor ''https://goproxy.io/docs/#h2'')\<lparr>classList := [''active'']\<rparr>) False,
          cleanup detached_page)
   \<and> dispatch_click exact example_location
         ((example_anchor ''https://goproxy.io/docs/#h2'')\<lparr>classList := [''active'']\<rparr>)
         True (cleanup detached_page)
       = (Normal,
          click_event
            ((example_anchor ''https://goproxy.io/docs/#h2'')\<lparr>classList := [''active'']\<rparr>) True,
          cleanup detached_page)
   \<and> throttle_pending (cleanup detached_page) = True
   \<and> tocEl (detached_page\<lparr>tocEl := None\<rparr>) = None
   \<and> timer_fire (cleanup (detached_page\<lparr>tocEl := None\<rparr>))
       = (Normal, (cleanup (detached_page\<lparr>tocEl := None\<rparr>))\<lparr>throttle_pending := False\<rparr>)"
proof -
  let ?as = "map example_anchor
      [''https://goproxy.io/docs/#h0'', ''https://goproxy.io/docs/#h1'',
       ''https://goproxy.io/docs/#h2'', ''https://goproxy.io/docs/#h3'']"
  let ?h2 = "(example_anchor ''https://goproxy.io/docs/#h2'')\<lparr>classList := [''active'']\<rparr>"
  have t: "tocEl example_page = Some ?as"
    by (simp add: example_page_def example_toc_fields)
  have e: "effect example_page = (fst (effect example_page), snd (effect example_page))"
    by simp
  note a = cleanup_removes_listeners
      [where p = example_page and window_over = True and fl = exact and loc = example_location]
  note b = cleanup_removes_listeners
      [where p = "snd (effect example_page)" and window_over = True and fl = exact
         and loc = example_location]
  note c = cleanup_removes_listeners
      [where p = detached_page and window_over = True and fl = exact and loc = example_location]
  note d = cleanup_removes_listeners
      [where p = "detached_page\<lparr>tocEl := None\<rparr>" and window_over = True and fl = exact
         and loc = example_location]
  have 1: "scroll_listener (snd (effect example_page))
     \<and> map_option (map click_listener) (tocEl (snd (effect example_page)))
         = Some (replicate (length ?as) True)
     \<and> map_option (map click_listener) (tocEl (cleanup (snd (effect example_page))))
         = Some (replicate (length ?as) False)"
    using a e t by blast
  have 2: "scroll_listener (cleanup (snd (effect example_page))) = False
     \<and> dispatch_scroll True (cleanup (snd (effect example_page)))
       = (Normal, cleanup (snd (effect example_page)))"
    using b by blast
  have 3: "tocEl (cleanup detached_page) = Some
        [example_anchor ''https://goproxy.io/docs/#h0'',
         example_anchor ''https://goproxy.io/docs/#h1'', ?h2,
         example_anchor ''https://goproxy.io/docs/#h3'']"
    by (simp add: cleanup_def Let_def detached_page_eq example_anchor_def)
  have 4: "dispatch_click exact example_location ?h2 inside (cleanup detached_page)
       = (Normal, click_event ?h2 inside, cleanup detached_page)" for inside
    using c 3 by (simp del: map_option_eq_Some)
  have 5: "throttle_pending (cleanup detached_page) = True"
    using c by (simp add: detached_page_eq)
  have 6: "timer_fire (cleanup (detached_page\<lparr>tocEl := None\<rparr>))
       = (Normal, (cleanup (detached_page\<lparr>tocEl := None\<rparr>))\<lparr>throttle_pending := False\<rparr>)"
    using d by simp
  show ?thesis
    using t 1 2 3 4 5 6 by (simp add: eval_nat_numeral)
qed

end
